theory Spec2Isabelle
  imports Complex_Main
begin

section \<open>Python values, exceptions and awaited computations\<close>

text \<open>
  The resilience layer of \<^verbatim>\<open>agents/jsxcreate/jsx_content_analyzer.py\<close> (the copy in
  \<^verbatim>\<open>jsx_generator.py\<close> has the same breaker, queue and executor) is embedded with
  explicit state passing. Exceptions are values, each carrying the text that
  \<^verbatim>\<open>str(e)\<close> gives. \<open>Exception\<close> stands for any subclass of \<^verbatim>\<open>Exception\<close> the
  code has no clause of its own for. \<^verbatim>\<open>asyncio.CancelledError\<close> (Python 3.8 and later),
  \<^verbatim>\<open>SystemExit\<close> and \<^verbatim>\<open>KeyboardInterrupt\<close> derive from \<^verbatim>\<open>BaseException\<close> only: an
  \<^verbatim>\<open>except Exception\<close> clause does not catch them.
  Wall-clock values (\<^verbatim>\<open>time.monotonic()\<close>, timeouts, sleeps) are real numbers: the
  rounding of Python's floats is not modelled.
\<close>

datatype PyExc =
    TimeoutError string
  | RecursionError string
  | CircuitBreakerOpenError string
  | AttributeError string
  | QueueFull string
  | ValueError string
  | Exception string
  | CancelledError string
  | SystemExit string
  | KeyboardInterrupt string

fun str_exc :: "PyExc \<Rightarrow> string" where
  "str_exc (TimeoutError m) = m"
| "str_exc (RecursionError m) = m"
| "str_exc (CircuitBreakerOpenError m) = m"
| "str_exc (AttributeError m) = m"
| "str_exc (QueueFull m) = m"
| "str_exc (ValueError m) = m"
| "str_exc (Exception m) = m"
| "str_exc (CancelledError m) = m"
| "str_exc (SystemExit m) = m"
| "str_exc (KeyboardInterrupt m) = m"

text \<open>\<^verbatim>\<open>isinstance(e, Exception)\<close>: what an \<^verbatim>\<open>except Exception\<close> clause catches.\<close>

fun is_Exception :: "PyExc \<Rightarrow> bool" where
  "is_Exception (CancelledError m) = False"
| "is_Exception (SystemExit m) = False"
| "is_Exception (KeyboardInterrupt m) = False"
| "is_Exception e = True"

text \<open>
  What awaiting a computation under a time budget gives: its value, nothing within the
  budget, or an exception: one the computation raises, or the \<^verbatim>\<open>CancelledError\<close> thrown
  into it at its await when the task that awaits it is cancelled.
\<close>

datatype 'v awaited = Returns 'v | Exceeds | Throws PyExc

text \<open>
  A result value. A coroutine object is the function from the budget it is awaited
  under to what the await gives.
\<close>

datatype PyVal =
    PyNone
  | PyInt int
  | PyBool bool
  | PyStr string
  | PyDict "(string \<times> PyVal) list"
  | PyCoroutine "real \<Rightarrow> PyVal awaited"

fun iscoroutine :: "PyVal \<Rightarrow> bool" where
  "iscoroutine (PyCoroutine c) = True"
| "iscoroutine v = False"

text \<open>
  \<^verbatim>\<open>asyncio.wait_for(aw, timeout)\<close>: the awaitable's value or exception, and
  \<^verbatim>\<open>asyncio.TimeoutError()\<close> (whose text is empty) when the budget runs out.
\<close>

definition wait_for :: "(real \<Rightarrow> 'v awaited) \<Rightarrow> real \<Rightarrow> PyExc + 'v" where
  "wait_for aw timeout =
     (case aw timeout of
        Returns v \<Rightarrow> Inr v
      | Exceeds \<Rightarrow> Inl (TimeoutError [])
      | Throws e \<Rightarrow> Inl e)"

text \<open>
  The n-th reading of \<^verbatim>\<open>time.monotonic()\<close> is \<open>clk n\<close>; every function that reads the
  clock takes the number of readings made so far and returns the new number.
\<close>

type_synonym clock = "nat \<Rightarrow> real"

section \<open>CircuitBreaker\<close>

datatype CircuitBreakerState = CLOSED | OPEN | HALF_OPEN

text \<open>
  The fields \<^verbatim>\<open>_state\<close>, \<^verbatim>\<open>_failure_count\<close>, \<^verbatim>\<open>_success_count\<close> and
  \<^verbatim>\<open>_last_failure_time\<close> are the \<open>priv_\<close> fields. \<open>attr_failure_count\<close> is the
  instance attribute \<^verbatim>\<open>failure_count\<close> (no underscore), which no method of the class
  reads and which exists only once something assigns it.
\<close>

record CircuitBreaker =
  failure_threshold :: int
  recovery_timeout :: real
  half_open_attempts :: int
  priv_state :: CircuitBreakerState
  priv_failure_count :: int
  priv_success_count :: int
  priv_last_failure_time :: "real option"
  attr_failure_count :: "int option"

definition CircuitBreaker_init :: "int \<Rightarrow> real \<Rightarrow> int \<Rightarrow> CircuitBreaker" where
  "CircuitBreaker_init ft rt hoa =
     \<lparr> failure_threshold = ft, recovery_timeout = rt, half_open_attempts = hoa,
       priv_state = CLOSED, priv_failure_count = 0, priv_success_count = 0,
       priv_last_failure_time = None, attr_failure_count = None \<rparr>"

text \<open>
  The property \<^verbatim>\<open>state\<close>. The test \<^verbatim>\<open>self._last_failure_time and ...\<close> is Python
  truthiness: \<^verbatim>\<open>None\<close> and \<^verbatim>\<open>0.0\<close> are both false, and the clock is read only
  after a true left operand.
\<close>

definition state_get :: "clock \<Rightarrow> CircuitBreaker \<Rightarrow> nat \<Rightarrow> CircuitBreakerState \<times> CircuitBreaker \<times> nat" where
  "state_get clk cb n =
     (if priv_state cb = OPEN then
        (case priv_last_failure_time cb of
           None \<Rightarrow> (OPEN, cb, n)
         | Some t \<Rightarrow>
             if t = 0 then (OPEN, cb, n)
             else if clk n - t > recovery_timeout cb
             then (HALF_OPEN, cb\<lparr>priv_state := HALF_OPEN, priv_success_count := 0\<rparr>, Suc n)
             else (OPEN, cb, Suc n))
      else (priv_state cb, cb, n))"

definition reset_counts :: "CircuitBreaker \<Rightarrow> CircuitBreaker" where
  "reset_counts cb = cb\<lparr>priv_failure_count := 0, priv_success_count := 0\<rparr>"

definition record_failure :: "clock \<Rightarrow> CircuitBreaker \<Rightarrow> nat \<Rightarrow> CircuitBreaker \<times> nat" where
  "record_failure clk cb n =
     (let cb1 = cb\<lparr>priv_failure_count := priv_failure_count cb + 1,
                    priv_last_failure_time := Some (clk n)\<rparr>
      in case state_get clk cb1 (Suc n) of
           (s1, cb2, n2) \<Rightarrow>
             if s1 = HALF_OPEN
             then (cb2\<lparr>priv_state := OPEN, priv_failure_count := failure_threshold cb2\<rparr>, n2)
             else if priv_failure_count cb2 \<ge> failure_threshold cb2
             then (case state_get clk cb2 n2 of
                     (s2, cb3, n3) \<Rightarrow>
                       if s2 = CLOSED then (cb3\<lparr>priv_state := OPEN\<rparr>, n3) else (cb3, n3))
             else (cb2, n2))"

definition record_success :: "clock \<Rightarrow> CircuitBreaker \<Rightarrow> nat \<Rightarrow> CircuitBreaker \<times> nat" where
  "record_success clk cb n =
     (case state_get clk cb n of
        (s1, cb1, n1) \<Rightarrow>
          if s1 = HALF_OPEN
          then (let cb2 = cb1\<lparr>priv_success_count := priv_success_count cb1 + 1\<rparr>
                in if priv_success_count cb2 \<ge> half_open_attempts cb2
                   then (reset_counts (cb2\<lparr>priv_state := CLOSED\<rparr>), n1)
                   else (cb2, n1))
          else (case state_get clk cb1 n1 of
                  (s2, cb3, n3) \<Rightarrow>
                    if s2 = CLOSED then (reset_counts cb3, n3) else (cb3, n3)))"

text \<open>
  \<^verbatim>\<open>execute\<close>: \<open>name\<close> is \<^verbatim>\<open>getattr(task_func, '__name__', 'unknown_task')\<close> and
  \<open>run\<close> is what awaiting the operation gives within the budget of the caller's
  \<^verbatim>\<open>wait_for\<close>. When the budget runs out the caller cancels the coroutine at its await:
  the cancellation is not an \<^verbatim>\<open>Exception\<close>, so neither counter method runs. The same
  holds for any exception of the operation that \<^verbatim>\<open>except Exception\<close> does not catch: it
  leaves \<^verbatim>\<open>execute\<close> without \<^verbatim>\<open>record_failure()\<close>.
\<close>

definition execute :: "clock \<Rightarrow> string \<Rightarrow> 'v awaited \<Rightarrow> CircuitBreaker \<Rightarrow> nat \<Rightarrow> 'v awaited \<times> CircuitBreaker \<times> nat" where
  "execute clk name run cb n =
     (case state_get clk cb n of
        (s, cb1, n1) \<Rightarrow>
          if s = OPEN
          then (Throws (CircuitBreakerOpenError
                  (''CircuitBreaker is OPEN for '' @ name @ ''. Call rejected.'')), cb1, n1)
          else (case run of
                  Returns v \<Rightarrow>
                    (case record_success clk cb1 n1 of (cb2, n2) \<Rightarrow> (Returns v, cb2, n2))
                | Throws e \<Rightarrow>
                    if is_Exception e
                    then (case record_failure clk cb1 n1 of (cb2, n2) \<Rightarrow> (Throws e, cb2, n2))
                    else (Throws e, cb1, n1)
                | Exceeds \<Rightarrow> (Exceeds, cb1, n1)))"

text \<open>\<open>k\<close> consecutive calls of \<^verbatim>\<open>record_failure()\<close>.\<close>

fun record_failures :: "clock \<Rightarrow> nat \<Rightarrow> CircuitBreaker \<Rightarrow> nat \<Rightarrow> CircuitBreaker \<times> nat" where
  "record_failures clk 0 cb n = (cb, n)"
| "record_failures clk (Suc k) cb n =
     (case record_failure clk cb n of (cb', n') \<Rightarrow> record_failures clk k cb' n')"

text \<open>
  Everything the two files do to a breaker object, and a sequence of such calls made one
  after another on the breaker \<^verbatim>\<open>__init__\<close> builds: the methods of the class, the
  assignment \<^verbatim>\<open>circuit_breaker.failure_count = 0\<close> that \<^verbatim>\<open>reset_system_state\<close> of
  \<^verbatim>\<open>jsx_content_analyzer.py\<close> gets to before it raises, and the reset of
  \<^verbatim>\<open>jsx_generator.py\<close> (\<^verbatim>\<open>_reset_counts()\<close>, then \<^verbatim>\<open>_state = CLOSED\<close>). Nothing else
  writes the fields with an underscore.
\<close>

datatype BreakerCall =
    ReadState
  | RecordFailure
  | RecordSuccess
  | ResetCounts
  | Execute string "PyVal awaited"
  | AssignFailureCount
  | ResetClosed

fun breaker_call :: "clock \<Rightarrow> BreakerCall \<Rightarrow> CircuitBreaker \<Rightarrow> nat \<Rightarrow> CircuitBreaker \<times> nat" where
  "breaker_call clk ReadState cb n = (case state_get clk cb n of (s, cb1, n1) \<Rightarrow> (cb1, n1))"
| "breaker_call clk RecordFailure cb n = record_failure clk cb n"
| "breaker_call clk RecordSuccess cb n = record_success clk cb n"
| "breaker_call clk ResetCounts cb n = (reset_counts cb, n)"
| "breaker_call clk (Execute name run) cb n =
     (case execute clk name run cb n of (out, cb1, n1) \<Rightarrow> (cb1, n1))"
| "breaker_call clk AssignFailureCount cb n = (cb\<lparr>attr_failure_count := Some 0\<rparr>, n)"
| "breaker_call clk ResetClosed cb n = ((reset_counts cb)\<lparr>priv_state := CLOSED\<rparr>, n)"

fun breaker_calls :: "clock \<Rightarrow> BreakerCall list \<Rightarrow> CircuitBreaker \<Rightarrow> nat \<Rightarrow> CircuitBreaker \<times> nat" where
  "breaker_calls clk [] cb n = (cb, n)"
| "breaker_calls clk (x # xs) cb n =
     (case breaker_call clk x cb n of (cb1, n1) \<Rightarrow> breaker_calls clk xs cb1 n1)"

text \<open>
  What every method keeps: a breaker whose stored state is Open has a recorded failure
  time that Python takes for true.
\<close>

definition open_has_failure_time :: "CircuitBreaker \<Rightarrow> bool" where
  "open_has_failure_time cb =
     (priv_state cb \<noteq> OPEN \<or>
      (case priv_last_failure_time cb of None \<Rightarrow> False | Some t \<Rightarrow> t \<noteq> 0))"

section \<open>WorkItem and AsyncWorkQueue\<close>

text \<open>
  A work item. \<open>item_task_func\<close> stands for the call
  \<^verbatim>\<open>task_func(*args, **kwargs)\<close> awaited under a budget (directly for a coroutine function,
  through \<^verbatim>\<open>run_in_executor\<close> for a plain function); \<^verbatim>\<open>__lt__\<close> compares priorities.
\<close>

record WorkItem =
  item_id :: string
  item_task_func :: "real \<Rightarrow> PyVal awaited"
  item_priority :: int
  item_max_retries :: int
  item_current_retry :: int
  item_timeout :: real
  item_created_at :: real

definition item_lt :: "WorkItem \<Rightarrow> WorkItem \<Rightarrow> bool" where
  "item_lt a b = (item_priority a < item_priority b)"

text \<open>
  The queue object: \<open>queue\<close> is the heap array of \<^verbatim>\<open>asyncio.PriorityQueue\<close>,
  \<open>maxsize\<close> its bound and \<open>unfinished_tasks\<close> its count of items put and not yet marked
  done; \<open>results\<close> is the table \<^verbatim>\<open>_results\<close>, each entry a dictionary with string keys.
\<close>

record AsyncWorkQueue =
  queue :: "WorkItem list"
  maxsize :: int
  unfinished_tasks :: int
  workers :: "nat list"
  max_workers :: int
  running :: bool
  results :: "string \<rightharpoonup> (string \<rightharpoonup> PyVal)"

definition AsyncWorkQueue_init :: "int \<Rightarrow> int \<Rightarrow> AsyncWorkQueue" where
  "AsyncWorkQueue_init mw max_queue_size =
     \<lparr> queue = [], maxsize = (if max_queue_size > 0 then max_queue_size else 0),
       unfinished_tasks = 0, workers = [], max_workers = mw, running = False,
       results = Map.empty \<rparr>"

subsection \<open>The priority structure (\<^verbatim>\<open>heapq\<close> under \<^verbatim>\<open>asyncio.PriorityQueue\<close>)\<close>

function siftdown_loop :: "WorkItem list \<Rightarrow> WorkItem \<Rightarrow> nat \<Rightarrow> nat \<Rightarrow> WorkItem list" where
  "siftdown_loop heap newitem startpos pos =
     (if pos > startpos
      then (if item_lt newitem (heap ! ((pos - 1) div 2))
            then siftdown_loop (heap[pos := heap ! ((pos - 1) div 2)]) newitem startpos ((pos - 1) div 2)
            else heap[pos := newitem])
      else heap[pos := newitem])"
  by pat_completeness auto
termination
  by (relation "measure (\<lambda>(heap, newitem, startpos, pos). pos)") auto

declare siftdown_loop.simps [simp del]

definition siftdown :: "WorkItem list \<Rightarrow> nat \<Rightarrow> nat \<Rightarrow> WorkItem list" where
  "siftdown heap startpos pos = siftdown_loop heap (heap ! pos) startpos pos"

definition heappush :: "WorkItem list \<Rightarrow> WorkItem \<Rightarrow> WorkItem list" where
  "heappush heap item = siftdown (heap @ [item]) 0 (length heap)"

function siftup_loop :: "WorkItem list \<Rightarrow> nat \<Rightarrow> WorkItem list \<times> nat" where
  "siftup_loop heap pos =
     (if 2 * pos + 1 < length heap
      then (if 2 * pos + 2 < length heap \<and> \<not> item_lt (heap ! (2 * pos + 1)) (heap ! (2 * pos + 2))
            then siftup_loop (heap[pos := heap ! (2 * pos + 2)]) (2 * pos + 2)
            else siftup_loop (heap[pos := heap ! (2 * pos + 1)]) (2 * pos + 1))
      else (heap, pos))"
  by pat_completeness auto
termination
  by (relation "measure (\<lambda>(heap, pos). length heap - pos)") auto

declare siftup_loop.simps [simp del]

definition siftup :: "WorkItem list \<Rightarrow> nat \<Rightarrow> WorkItem list" where
  "siftup heap pos =
     (case siftup_loop heap pos of
        (heap1, pos1) \<Rightarrow> siftdown (heap1[pos1 := heap ! pos]) pos pos1)"

text \<open>\<^verbatim>\<open>heappop\<close> of a non-empty heap: the smallest item and the remaining heap.\<close>

definition heappop :: "WorkItem list \<Rightarrow> WorkItem \<times> WorkItem list" where
  "heappop heap =
     (let lastelt = last heap; rest = butlast heap
      in if rest \<noteq> [] then (rest ! 0, siftup (rest[0 := lastelt]) 0) else (lastelt, rest))"

subsection \<open>\<^verbatim>\<open>asyncio.Queue\<close>: full, put_nowait, put, get, task_done\<close>

text \<open>
  A call that awaits either comes back with a value, raises, or stays suspended at its
  await: \<open>Suspended\<close> is the caller blocked for as long as the condition it waits for
  does not change.
\<close>

datatype 'a call = Return 'a | Raise PyExc | Suspended

definition full :: "AsyncWorkQueue \<Rightarrow> bool" where
  "full q = (if maxsize q \<le> 0 then False else int (length (queue q)) \<ge> maxsize q)"

definition put_nowait :: "AsyncWorkQueue \<Rightarrow> WorkItem \<Rightarrow> AsyncWorkQueue call" where
  "put_nowait q item =
     (if full q then Raise (QueueFull [])
      else Return (q\<lparr>queue := heappush (queue q) item,
                     unfinished_tasks := unfinished_tasks q + 1\<rparr>))"

text \<open>
  \<^verbatim>\<open>await queue.put(item)\<close>: while the queue is full the caller waits for a free slot;
  only then does it run \<^verbatim>\<open>put_nowait\<close>.
\<close>

definition put :: "AsyncWorkQueue \<Rightarrow> WorkItem \<Rightarrow> AsyncWorkQueue call" where
  "put q item = (if full q then Suspended else put_nowait q item)"

text \<open>
  \<^verbatim>\<open>asyncio.wait_for(self._queue.get(), timeout=1.0)\<close>: the smallest item, or \<open>None\<close>
  for the \<^verbatim>\<open>TimeoutError\<close> of a queue that stayed empty.
\<close>

definition get_within :: "AsyncWorkQueue \<Rightarrow> (WorkItem \<times> AsyncWorkQueue) option" where
  "get_within q =
     (if queue q = [] then None
      else (case heappop (queue q) of (item, rest) \<Rightarrow> Some (item, q\<lparr>queue := rest\<rparr>)))"

text \<open>
  \<^verbatim>\<open>task_done()\<close> raises \<^verbatim>\<open>ValueError\<close> when more items are marked done than were
  put. A function that can raise after it has changed the queue returns the exception
  (if any) together with the queue as it then is.
\<close>

definition task_done :: "AsyncWorkQueue \<Rightarrow> PyExc option \<times> AsyncWorkQueue" where
  "task_done q =
     (if unfinished_tasks q \<le> 0 then (Some (ValueError ''task_done() called too many times''), q)
      else (None, q\<lparr>unfinished_tasks := unfinished_tasks q - 1\<rparr>))"

subsection \<open>start, enqueue_work and the worker\<close>

definition start :: "AsyncWorkQueue \<Rightarrow> AsyncWorkQueue" where
  "start q =
     (if \<not> running q then q\<lparr>running := True, workers := [0..<nat (max_workers q)]\<rparr> else q)"

definition enqueue_work :: "AsyncWorkQueue \<Rightarrow> WorkItem \<Rightarrow> bool call \<times> AsyncWorkQueue" where
  "enqueue_work q item =
     (let q1 = (if \<not> running q then start q else q)
      in case put q1 item of
           Return q2 \<Rightarrow> (Return True, q2)
         | Raise (QueueFull m) \<Rightarrow> (Return False, q1)
         | Raise e \<Rightarrow> (Raise e, q1)
         | Suspended \<Rightarrow> (Suspended, q1))"

definition store :: "AsyncWorkQueue \<Rightarrow> string \<Rightarrow> (string \<rightharpoonup> PyVal) \<Rightarrow> AsyncWorkQueue" where
  "store q k entry = q\<lparr>results := (results q)(k \<mapsto> entry)\<rparr>"

definition success_entry :: "PyVal \<Rightarrow> (string \<rightharpoonup> PyVal)" where
  "success_entry v = [''status'' \<mapsto> PyStr ''success'', ''result'' \<mapsto> v]"

definition timeout_entry :: "string \<Rightarrow> (string \<rightharpoonup> PyVal)" where
  "timeout_entry m = [''status'' \<mapsto> PyStr ''timeout'', ''error'' \<mapsto> PyStr m]"

definition error_entry :: "string \<Rightarrow> (string \<rightharpoonup> PyVal)" where
  "error_entry m = [''status'' \<mapsto> PyStr ''error'', ''error'' \<mapsto> PyStr m]"

text \<open>
  The inner \<^verbatim>\<open>try\<close> of \<^verbatim>\<open>_worker\<close> up to its \<^verbatim>\<open>except\<close> clauses: the awaited call, the
  second await of a result that is itself a coroutine (whose failure, if
  \<^verbatim>\<open>except Exception\<close> catches it, stores an error entry and leaves by \<^verbatim>\<open>continue\<close>),
  and the success entry. \<open>Inl\<close> is an exception raised in the body of the \<^verbatim>\<open>try\<close>.
  Other workers may run while the call is awaited: \<open>q\<close> is the queue object as it is when
  the entry is written.
\<close>

definition try_item :: "AsyncWorkQueue \<Rightarrow> WorkItem \<Rightarrow> PyExc + AsyncWorkQueue" where
  "try_item q item =
     (case wait_for (item_task_func item) (item_timeout item) of
        Inl e \<Rightarrow> Inl e
      | Inr result \<Rightarrow>
          (case result of
             PyCoroutine c \<Rightarrow>
               (case wait_for c (item_timeout item) of
                  Inl e \<Rightarrow>
                    if is_Exception e
                    then Inr (store q (item_id item)
                                (error_entry (''Nested coroutine execution failed: '' @ str_exc e)))
                    else Inl e
                | Inr result2 \<Rightarrow> Inr (store q (item_id item) (success_entry result2)))
           | _ \<Rightarrow> Inr (store q (item_id item) (success_entry result))))"

text \<open>
  The whole inner \<^verbatim>\<open>try\<close>: the two \<^verbatim>\<open>except\<close> clauses, then \<^verbatim>\<open>finally\<close> with
  \<^verbatim>\<open>task_done()\<close>, whose \<^verbatim>\<open>ValueError\<close> would leave the statement. An exception
  that neither clause catches stores nothing: \<^verbatim>\<open>finally\<close> runs and the exception goes on,
  unless \<^verbatim>\<open>task_done()\<close> raises in its place.
\<close>

definition process_item :: "AsyncWorkQueue \<Rightarrow> WorkItem \<Rightarrow> PyExc option \<times> AsyncWorkQueue" where
  "process_item q item =
     (case try_item q item of
        Inr q1 \<Rightarrow> task_done q1
      | Inl e \<Rightarrow>
          (case e of
             TimeoutError m \<Rightarrow>
               task_done (store q (item_id item)
                            (timeout_entry (''Task '' @ item_id item @ '' timed out'')))
           | _ \<Rightarrow>
               if is_Exception e
               then task_done (store q (item_id item) (error_entry (str_exc e)))
               else (case task_done q of
                       (Some v, q1) \<Rightarrow> (Some v, q1)
                     | (None, q1) \<Rightarrow> (Some e, q1))))"

text \<open>
  One pass of the body of the worker's \<^verbatim>\<open>while\<close> loop, with the two \<^verbatim>\<open>except\<close>
  clauses of the outer \<^verbatim>\<open>try\<close>; \<open>Propagate\<close> is an exception leaving the loop, and with
  it the worker. \<open>cancelled\<close> says whether \<^verbatim>\<open>stop()\<close> cancels the worker's task while
  the pass waits for an item of the empty queue or in \<^verbatim>\<open>asyncio.sleep(1)\<close>; a
  cancellation that arrives while the item's call is awaited is that await's outcome
  \<open>Throws (CancelledError [])\<close>.
\<close>

datatype pass = Continue AsyncWorkQueue | Break AsyncWorkQueue | Propagate PyExc AsyncWorkQueue

definition worker_pass :: "bool \<Rightarrow> AsyncWorkQueue \<Rightarrow> pass" where
  "worker_pass cancelled q =
     (case get_within q of
        None \<Rightarrow>
          (if cancelled then Propagate (CancelledError []) q
           else if \<not> running q \<and> queue q = [] then Break q else Continue q)
      | Some (item, q1) \<Rightarrow>
          (case process_item q1 item of
             (None, q2) \<Rightarrow> Continue q2
           | (Some e, q2) \<Rightarrow>
               (case e of
                  TimeoutError m \<Rightarrow>
                    (if \<not> running q2 \<and> queue q2 = [] then Break q2 else Continue q2)
                | _ \<Rightarrow>
                    if is_Exception e
                    then (if cancelled then Propagate (CancelledError []) q2 else Continue q2)
                    else Propagate e q2)))"

text \<open>
  The worker loop. The list says, pass by pass, whether the worker's task is cancelled
  during the pass, and its length is the fuel: \<open>None\<close> when it runs out (a running queue
  keeps its workers polling), otherwise the queue the loop stops with or the exception
  that left it.
\<close>

fun worker :: "bool list \<Rightarrow> AsyncWorkQueue \<Rightarrow> (PyExc + AsyncWorkQueue) option" where
  "worker [] q = None"
| "worker (cancelled # rest) q =
     (if running q \<or> queue q \<noteq> []
      then (case worker_pass cancelled q of
              Continue q1 \<Rightarrow> worker rest q1
            | Break q1 \<Rightarrow> Some (Inr q1)
            | Propagate e q1 \<Rightarrow> Some (Inl e))
      else Some (Inr q))"

section \<open>BaseAsyncAgent\<close>

record ExecutionStats =
  total_attempts :: int
  successful_executions :: int
  fallback_used :: int
  circuit_breaker_triggered :: int
  timeout_occurred :: int

definition zero_stats :: ExecutionStats where
  "zero_stats = \<lparr> total_attempts = 0, successful_executions = 0, fallback_used = 0,
                   circuit_breaker_triggered = 0, timeout_occurred = 0 \<rparr>"

record BaseAsyncAgent =
  work_queue :: AsyncWorkQueue
  circuit_breaker :: CircuitBreaker
  fallback_to_sync :: bool
  recursion_check_buffer :: int
  execution_stats :: ExecutionStats

definition BaseAsyncAgent_init :: BaseAsyncAgent where
  "BaseAsyncAgent_init =
     \<lparr> work_queue = AsyncWorkQueue_init 2 50, circuit_breaker = CircuitBreaker_init 8 30 2,
       fallback_to_sync = False, recursion_check_buffer = 50, execution_stats = zero_stats \<rparr>"

text \<open>
  What the executor reads from outside: the clock, the call-stack depth
  \<^verbatim>\<open>len(inspect.stack())\<close> measured at the check of the attempt with a given
  \<^verbatim>\<open>current_retry\<close>, and \<^verbatim>\<open>sys.getrecursionlimit()\<close>.
\<close>

record Env =
  monotonic :: clock
  stack_depth :: "int \<Rightarrow> int"
  getrecursionlimit :: int

text \<open>
  The argument \<^verbatim>\<open>task_func\<close>: a coroutine object, a future, or something callable with
  its \<^verbatim>\<open>__name__\<close>, where the call made in the attempt with a given \<^verbatim>\<open>current_retry\<close> is
  awaited under the attempt's budget.
\<close>

datatype Task =
    CoroutineObject "real \<Rightarrow> PyVal awaited"
  | FutureObject "real \<Rightarrow> PyVal awaited"
  | Callable string "int \<Rightarrow> real \<Rightarrow> PyVal awaited"

text \<open>
  What one call of \<^verbatim>\<open>execute_with_resilience\<close> leaves behind it, in order: the attempt
  announced at the top of the loop body with its number and budget, the exception an
  \<^verbatim>\<open>except\<close> clause of the loop caught, and the backoff sleep with its duration.
\<close>

datatype Event = Attempt int real | Failed PyExc | Sleep real

text \<open>
  The state one call runs in: the agent, the breaker object passed as the
  \<^verbatim>\<open>circuit_breaker\<close> argument (if any), the number of clock readings made and the
  events so far.
\<close>

record Run =
  agent :: BaseAsyncAgent
  breaker_arg :: "CircuitBreaker option"
  readings :: nat
  trace :: "Event list"

record Call =
  task_id :: string
  task_name :: string
  task_body :: "int \<Rightarrow> real \<Rightarrow> PyVal awaited"
  max_retries :: int
  initial_timeout :: real
  backoff_factor :: real

definition actual_circuit_breaker :: "Run \<Rightarrow> CircuitBreaker" where
  "actual_circuit_breaker r =
     (case breaker_arg r of Some cb \<Rightarrow> cb | None \<Rightarrow> circuit_breaker (agent r))"

definition set_actual_circuit_breaker :: "CircuitBreaker \<Rightarrow> Run \<Rightarrow> Run" where
  "set_actual_circuit_breaker cb r =
     (case breaker_arg r of
        Some old \<Rightarrow> r\<lparr>breaker_arg := Some cb\<rparr>
      | None \<Rightarrow> r\<lparr>agent := (agent r)\<lparr>circuit_breaker := cb\<rparr>\<rparr>)"

subsection \<open>Decimal text of an integer, for the f-strings\<close>

fun str_nat :: "nat \<Rightarrow> string" where
  "str_nat n =
     (if n < 10 then [''0123456789'' ! n]
      else str_nat (n div 10) @ [''0123456789'' ! (n mod 10)])"

declare str_nat.simps [simp del]

definition str_int :: "int \<Rightarrow> string" where
  "str_int i = (if i < 0 then CHR ''-'' # str_nat (nat (- i)) else str_nat (nat i))"

definition task_full_id :: "string \<Rightarrow> int \<Rightarrow> string" where
  "task_full_id tid current_retry = tid @ ''-attempt-'' @ str_int (current_retry + 1)"

subsection \<open>execute\_with\_resilience\<close>

text \<open>
  The \<^verbatim>\<open>try\<close> block of the loop body: the recursion check, then the breaker's
  \<^verbatim>\<open>execute\<close> under \<^verbatim>\<open>wait_for\<close>. With a budget that is not positive \<^verbatim>\<open>wait_for\<close>
  cancels the coroutine before its first step, so the breaker is not consulted.
\<close>

definition attempt :: "Env \<Rightarrow> Call \<Rightarrow> int \<Rightarrow> real \<Rightarrow> Run \<Rightarrow> (PyExc + PyVal) \<times> Run" where
  "attempt env c current_retry current_timeout r =
     (if stack_depth env current_retry \<ge> getrecursionlimit env - recursion_check_buffer (agent r)
      then (Inl (RecursionError (''Preemptive recursion depth stop for ''
                   @ task_full_id (task_id c) current_retry)), r)
      else if current_timeout \<le> 0 then (Inl (TimeoutError []), r)
      else (case execute (monotonic env) (task_name c)
                   (task_body c current_retry current_timeout)
                   (actual_circuit_breaker r) (readings r) of
              (Returns v, cb, n) \<Rightarrow> (Inr v, set_actual_circuit_breaker cb (r\<lparr>readings := n\<rparr>))
            | (Exceeds, cb, n) \<Rightarrow>
                (Inl (TimeoutError []), set_actual_circuit_breaker cb (r\<lparr>readings := n\<rparr>))
            | (Throws e, cb, n) \<Rightarrow> (Inl e, set_actual_circuit_breaker cb (r\<lparr>readings := n\<rparr>))))"

text \<open>The \<^verbatim>\<open>except\<close> clauses that fall through to the retry: what each one counts.\<close>

definition count_failure :: "PyExc \<Rightarrow> Run \<Rightarrow> Run" where
  "count_failure e r =
     (case e of
        TimeoutError m \<Rightarrow>
          r\<lparr>agent := (agent r)\<lparr>execution_stats := (execution_stats (agent r))
              \<lparr>timeout_occurred := timeout_occurred (execution_stats (agent r)) + 1\<rparr>\<rparr>\<rparr>
      | CircuitBreakerOpenError m \<Rightarrow>
          r\<lparr>agent := (agent r)\<lparr>execution_stats := (execution_stats (agent r))
              \<lparr>circuit_breaker_triggered :=
                 circuit_breaker_triggered (execution_stats (agent r)) + 1\<rparr>\<rparr>\<rparr>
      | _ \<Rightarrow> r)"

definition log_event :: "Event \<Rightarrow> Run \<Rightarrow> Run" where
  "log_event ev r = r\<lparr>trace := trace r @ [ev]\<rparr>"

definition is_RecursionError :: "PyExc \<Rightarrow> bool" where
  "is_RecursionError e = (case e of RecursionError m \<Rightarrow> True | _ \<Rightarrow> False)"

text \<open>
  The \<^verbatim>\<open>while current_retry <= max_retries\<close> loop and the two \<^verbatim>\<open>raise\<close> statements
  after it. The exponent \<^verbatim>\<open>current_retry - 1\<close> is never negative, since
  \<^verbatim>\<open>current_retry\<close> starts at 0 and has just been incremented. An exception that is
  not an \<^verbatim>\<open>Exception\<close> matches none of the four \<^verbatim>\<open>except\<close> clauses: it leaves the
  loop and the call as it is, with nothing logged or counted.
\<close>

function retry_loop :: "Env \<Rightarrow> Call \<Rightarrow> int \<Rightarrow> real \<Rightarrow> PyExc option \<Rightarrow> Run \<Rightarrow> (PyExc + PyVal) \<times> Run" where
  "retry_loop env c current_retry current_timeout last_exception r =
     (if current_retry \<le> max_retries c
      then (case attempt env c current_retry current_timeout
                   (log_event (Attempt (current_retry + 1) current_timeout) r) of
              (Inr result, r1) \<Rightarrow> (Inr result, r1)
            | (Inl e, r1) \<Rightarrow>
                if is_RecursionError e
                then (Inl e, (log_event (Failed e) r1)
                               \<lparr>agent := (agent (log_event (Failed e) r1))\<lparr>fallback_to_sync := True\<rparr>\<rparr>)
                else if \<not> is_Exception e
                then (Inl e, r1)
                else if current_retry + 1 \<le> max_retries c
                then retry_loop env c (current_retry + 1) (current_timeout * backoff_factor c) (Some e)
                       (log_event (Sleep (backoff_factor c ^ nat (current_retry + 1 - 1)))
                          (count_failure e (log_event (Failed e) r1)))
                else retry_loop env c (current_retry + 1) current_timeout (Some e)
                       (count_failure e (log_event (Failed e) r1)))
      else (case last_exception of
              Some e \<Rightarrow> (Inl e, r)
            | None \<Rightarrow>
                (Inl (Exception (''Task '' @ [CHR 0x27] @ task_id c @ [CHR 0x27]
                        @ '' failed after max retries without a specific exception.'')), r)))"
  by pat_completeness auto
termination
  by (relation "measure (\<lambda>(env, c, current_retry, current_timeout, last_exception, r).
                           nat (max_retries c + 1 - current_retry))") auto

declare retry_loop.simps [simp del]

text \<open>
  \<^verbatim>\<open>BaseAsyncAgent._get_fallback_result\<close>. The call \<^verbatim>\<open>self._get_fallback_result(task_id)\<close>
  goes to whatever the agent's class defines, so \<^verbatim>\<open>execute_with_resilience\<close> takes the
  method as \<open>fb\<close>: it returns the placeholder and the agent as it leaves it.
\<close>

definition get_fallback_result :: "string \<Rightarrow> BaseAsyncAgent \<Rightarrow> PyVal \<times> BaseAsyncAgent" where
  "get_fallback_result tid self = (PyStr (''FALLBACK_RESULT_FOR_'' @ tid), self)"

text \<open>
  The two early branches, for a coroutine object and for a future: one await under
  \<^verbatim>\<open>initial_timeout\<close>, and the fallback result for what \<^verbatim>\<open>except Exception\<close> catches.
\<close>

definition await_directly :: "(string \<Rightarrow> BaseAsyncAgent \<Rightarrow> PyVal \<times> BaseAsyncAgent) \<Rightarrow> string \<Rightarrow>
    (real \<Rightarrow> PyVal awaited) \<Rightarrow> real \<Rightarrow> Run \<Rightarrow> (PyExc + PyVal) \<times> Run" where
  "await_directly fb tid aw timeout0 r =
     (case wait_for aw timeout0 of
        Inr v \<Rightarrow> (Inr v, r)
      | Inl e \<Rightarrow>
          if is_Exception e
          then (case fb tid (agent r) of (v, a) \<Rightarrow> (Inr v, r\<lparr>agent := a\<rparr>))
          else (Inl e, r))"

definition execute_with_resilience :: "Env \<Rightarrow> (string \<Rightarrow> BaseAsyncAgent \<Rightarrow> PyVal \<times> BaseAsyncAgent) \<Rightarrow>
    string \<Rightarrow> Task \<Rightarrow> int \<Rightarrow> real \<Rightarrow> real \<Rightarrow> Run \<Rightarrow> (PyExc + PyVal) \<times> Run" where
  "execute_with_resilience env fb tid task retries timeout0 backoff r =
     (case task of
        CoroutineObject aw \<Rightarrow> await_directly fb tid aw timeout0 r
      | FutureObject aw \<Rightarrow> await_directly fb tid aw timeout0 r
      | Callable name body \<Rightarrow>
          retry_loop env
            \<lparr> task_id = tid, task_name = name, task_body = body, max_retries = retries,
              initial_timeout = timeout0, backoff_factor = backoff \<rparr>
            0 timeout0 None r)"

subsection \<open>JSXContentAnalyzer.reset\_system\_state\<close>

text \<open>
  \<^verbatim>\<open>state\<close> is a property with a getter only: assigning to it raises
  \<^verbatim>\<open>AttributeError\<close> (the text is the one of Python 3.11 and later) and stores nothing.
\<close>

definition state_set :: "CircuitBreaker \<Rightarrow> CircuitBreakerState \<Rightarrow> PyExc + CircuitBreaker" where
  "state_set cb v =
     Inl (AttributeError (''property '' @ [CHR 0x27] @ ''state'' @ [CHR 0x27] @ '' of ''
            @ [CHR 0x27] @ ''CircuitBreaker'' @ [CHR 0x27] @ '' object has no setter''))"

text \<open>
  The first statement assigns the attribute \<^verbatim>\<open>failure_count\<close>, not \<^verbatim>\<open>_failure_count\<close>;
  the second assigns the property; the remaining ones run only if it did not raise.
\<close>

definition reset_system_state :: "BaseAsyncAgent \<Rightarrow> PyExc option \<times> BaseAsyncAgent" where
  "reset_system_state self =
     (let self1 = self\<lparr>circuit_breaker := (circuit_breaker self)\<lparr>attr_failure_count := Some 0\<rparr>\<rparr>
      in case state_set (circuit_breaker self1) CLOSED of
           Inl e \<Rightarrow> (Some e, self1)
         | Inr cb \<Rightarrow>
             (None, self1\<lparr>circuit_breaker := cb, fallback_to_sync := False,
                          execution_stats := zero_stats\<rparr>))"

text \<open>\<open>k\<close> consecutive calls, each made whether or not the one before it raised.\<close>

fun reset_repeatedly :: "nat \<Rightarrow> BaseAsyncAgent \<Rightarrow> PyExc option list \<times> BaseAsyncAgent" where
  "reset_repeatedly 0 self = ([], self)"
| "reset_repeatedly (Suc k) self =
     (case reset_system_state self of
        (e, self1) \<Rightarrow> (case reset_repeatedly k self1 of (es, self2) \<Rightarrow> (e # es, self2)))"

subsection \<open>The timing of a call, and the schedule the specification gives\<close>

text \<open>The timing of a trace: its attempts and sleeps, without the caught exceptions.\<close>

definition is_Failed :: "Event \<Rightarrow> bool" where
  "is_Failed ev = (case ev of Failed e \<Rightarrow> True | _ \<Rightarrow> False)"

definition timing :: "Event list \<Rightarrow> Event list" where
  "timing tr = filter (\<lambda>ev. \<not> is_Failed ev) tr"

text \<open>
  The schedule in the specification's words, for the attempts numbered \<open>j + 1\<close> to \<open>n\<close>
  of a call with initial timeout \<open>T\<close> and backoff factor \<open>b\<close>: attempt \<open>k\<close> (1-indexed) runs
  under \<open>T * b ^ (k - 1)\<close> and, unless it is the last attempt made, is followed by a sleep
  of \<open>b ^ (k - 1)\<close> seconds.
\<close>

definition spec_backoff_schedule :: "real \<Rightarrow> real \<Rightarrow> nat \<Rightarrow> nat \<Rightarrow> Event list" where
  "spec_backoff_schedule T b j n =
     concat (map (\<lambda>i. Attempt (int i + 1) (T * b ^ i) # (if Suc i < n then [Sleep (b ^ i)] else []))
               [j..<n])"

section \<open>Example inputs\<close>

text \<open>Concrete items, states and environments the properties below are evaluated at.\<close>

definition example_item :: "string \<Rightarrow> (real \<Rightarrow> PyVal awaited) \<Rightarrow> WorkItem" where
  "example_item k f =
     \<lparr> item_id = k, item_task_func = f, item_priority = 0, item_max_retries = 3,
       item_current_retry = 0, item_timeout = 300, item_created_at = 0 \<rparr>"

definition nested_item :: WorkItem where
  "nested_item = example_item ''a'' (\<lambda>t. Returns (PyCoroutine (\<lambda>t. Exceeds)))"

definition example_run :: Run where
  "example_run = \<lparr> agent = BaseAsyncAgent_init, breaker_arg = None, readings = 0, trace = [] \<rparr>"

definition example_env :: Env where
  "example_env = \<lparr> monotonic = (\<lambda>i. 5 + real i), stack_depth = (\<lambda>k. 20),
                    getrecursionlimit = 1000 \<rparr>"

definition twice_then_ok :: "int \<Rightarrow> real \<Rightarrow> PyVal awaited" where
  "twice_then_ok k t = (if k < 2 then Exceeds else Returns (PyInt 7))"

section \<open>Properties of the breaker\<close>

lemma state_get_not_open:
  "priv_state cb \<noteq> OPEN \<Longrightarrow> state_get clk cb n = (priv_state cb, cb, n)"
  by (simp add: state_get_def)

lemma record_failure_closed_below:
  assumes "priv_state cb = CLOSED" and "priv_failure_count cb + 1 < failure_threshold cb"
  shows "record_failure clk cb n =
           (cb\<lparr>priv_failure_count := priv_failure_count cb + 1,
               priv_last_failure_time := Some (clk n)\<rparr>, Suc n)"
  using assms by (simp add: record_failure_def state_get_def Let_def)

lemma record_failure_closed_reached:
  assumes "priv_state cb = CLOSED" and "failure_threshold cb \<le> priv_failure_count cb + 1"
  shows "record_failure clk cb n =
           (cb\<lparr>priv_failure_count := priv_failure_count cb + 1,
               priv_last_failure_time := Some (clk n),
               priv_state := OPEN\<rparr>, Suc n)"
  using assms by (simp add: record_failure_def state_get_def Let_def)

lemma record_failures_below:
  "priv_state cb = CLOSED \<Longrightarrow> priv_failure_count cb + int k < failure_threshold cb \<Longrightarrow>
   record_failures clk k cb n =
     (cb\<lparr>priv_failure_count := priv_failure_count cb + int k,
         priv_last_failure_time := (if k = 0 then priv_last_failure_time cb
                                    else Some (clk (n + k - 1)))\<rparr>, n + k)"
proof (induction k arbitrary: cb n)
  case 0
  then show ?case by simp
next
  case (Suc k)
  let ?cb1 = "cb\<lparr>priv_failure_count := priv_failure_count cb + 1,
                  priv_last_failure_time := Some (clk n)\<rparr>"
  have step: "record_failure clk cb n = (?cb1, Suc n)"
    using Suc.prems by (simp add: record_failure_closed_below)
  have "record_failures clk k ?cb1 (Suc n) =
          (?cb1\<lparr>priv_failure_count := priv_failure_count ?cb1 + int k,
                priv_last_failure_time := (if k = 0 then priv_last_failure_time ?cb1
                                           else Some (clk (Suc n + k - 1)))\<rparr>, Suc n + k)"
    using Suc.prems by (intro Suc.IH) simp_all
  then show ?case
    using step by (simp add: add.assoc)
qed

lemma record_failures_snoc:
  "record_failures clk (Suc k) cb n =
     (case record_failures clk k cb n of (cb', n') \<Rightarrow> record_failure clk cb' n')"
proof (induction k arbitrary: cb n)
  case 0
  show ?case by (cases "record_failure clk cb n") simp
next
  case (Suc k)
  obtain cb1 n1 where s: "record_failure clk cb n = (cb1, n1)"
    by (cases "record_failure clk cb n")
  have "record_failures clk (Suc (Suc k)) cb n = record_failures clk (Suc k) cb1 n1"
    using s by simp
  also have "\<dots> = (case record_failures clk k cb1 n1 of (cb', n') \<Rightarrow> record_failure clk cb' n')"
    by (rule Suc.IH)
  also have "record_failures clk k cb1 n1 = record_failures clk (Suc k) cb n"
    using s by simp
  finally show ?case .
qed

text \<open>
  C3, as amended. From Closed with a zero failure count and a threshold of at least one:
  after fewer than \<open>failure_threshold\<close> consecutive \<^verbatim>\<open>record_failure()\<close> calls the stored
  state is still Closed (and the \<^verbatim>\<open>state\<close> property reads Closed), and after exactly
  \<open>failure_threshold\<close> calls the stored state is Open.
\<close>

theorem breaker_threshold:
  assumes "priv_state cb = CLOSED" and "priv_failure_count cb = 0"
    and "0 < failure_threshold cb"
  shows "priv_state (fst (record_failures clk (nat (failure_threshold cb)) cb n)) = OPEN \<and>
         (\<forall>k. k < nat (failure_threshold cb) \<longrightarrow>
            priv_state (fst (record_failures clk k cb n)) = CLOSED \<and>
            fst (state_get clk (fst (record_failures clk k cb n)) m) = CLOSED)"
proof -
  have below: "priv_state (fst (record_failures clk k cb n)) = CLOSED \<and>
               fst (state_get clk (fst (record_failures clk k cb n)) m) = CLOSED"
    if "k < nat (failure_threshold cb)" for k
  proof -
    have "priv_failure_count cb + int k < failure_threshold cb"
      using that assms by simp
    then show ?thesis
      using assms(1) by (simp add: record_failures_below state_get_def)
  qed
  obtain j where j: "nat (failure_threshold cb) = Suc j"
    using assms(3) by (cases "nat (failure_threshold cb)") simp_all
  have jlt: "priv_failure_count cb + int j < failure_threshold cb"
    using j assms by linarith
  define cbj where "cbj = fst (record_failures clk j cb n)"
  have rj: "record_failures clk j cb n = (cbj, n + j)"
    unfolding cbj_def using assms(1) jlt by (simp add: record_failures_below)
  have cj: "priv_state cbj = CLOSED" "priv_failure_count cbj = int j"
       "failure_threshold cbj = failure_threshold cb"
    unfolding cbj_def using assms(1,2) jlt by (simp_all add: record_failures_below)
  have "record_failures clk (Suc j) cb n = record_failure clk cbj (n + j)"
    by (subst record_failures_snoc) (simp add: rj)
  moreover have "failure_threshold cbj \<le> priv_failure_count cbj + 1"
    using cj j by linarith
  ultimately have "priv_state (fst (record_failures clk (Suc j) cb n)) = OPEN"
    using cj(1) by (simp add: record_failure_closed_reached)
  then show ?thesis
    using below j by simp
qed

theorem breaker_threshold_witness:
  "priv_state (fst (record_failures (\<lambda>i. 5 + real i) (nat 2) (CircuitBreaker_init 2 30 2) 0)) = OPEN \<and>
   priv_state (fst (record_failures (\<lambda>i. 5 + real i) 1 (CircuitBreaker_init 2 30 2) 0)) = CLOSED"
proof -
  have a: "priv_state (CircuitBreaker_init 2 30 2) = CLOSED"
    and b: "priv_failure_count (CircuitBreaker_init 2 30 2) = 0"
    and c: "0 < failure_threshold (CircuitBreaker_init 2 30 2)"
    by (simp_all add: CircuitBreaker_init_def)
  have d: "failure_threshold (CircuitBreaker_init 2 30 2) = 2"
    by (simp add: CircuitBreaker_init_def)
  have "priv_state (fst (record_failures (\<lambda>i. 5 + real i) (nat 2) (CircuitBreaker_init 2 30 2) 0)) = OPEN"
    using breaker_threshold [OF a b c, of "\<lambda>i. 5 + real i" 0 0] by (simp add: d)
  moreover have "priv_state (fst (record_failures (\<lambda>i. 5 + real i) 1 (CircuitBreaker_init 2 30 2) 0)) = CLOSED"
    by (simp add: record_failure_def state_get_def CircuitBreaker_init_def Let_def)
  ultimately show ?thesis by simp
qed

text \<open>
  The claim as written fails for a threshold of zero: "exactly \<open>failure_threshold\<close>
  calls" is then no call at all, and the breaker is still in its initial Closed state.
\<close>

theorem breaker_threshold_counterexample:
  "priv_state (CircuitBreaker_init 0 30 2) = CLOSED \<and>
   priv_failure_count (CircuitBreaker_init 0 30 2) = 0 \<and>
   priv_state (fst (record_failures (\<lambda>i. 5 + real i)
      (nat (failure_threshold (CircuitBreaker_init 0 30 2))) (CircuitBreaker_init 0 30 2) 0)) = CLOSED"
  by (simp add: CircuitBreaker_init_def)

lemma invariant_init: "open_has_failure_time (CircuitBreaker_init ft rt hoa)"
  by (simp add: open_has_failure_time_def CircuitBreaker_init_def)

lemma invariant_state_get:
  "open_has_failure_time cb \<Longrightarrow> open_has_failure_time (fst (snd (state_get clk cb n)))"
  by (auto simp add: open_has_failure_time_def state_get_def split: option.splits)

lemma invariant_reset_counts:
  "open_has_failure_time cb \<Longrightarrow> open_has_failure_time (reset_counts cb)"
  by (simp add: open_has_failure_time_def reset_counts_def)

lemma invariant_record_failure:
  "clk n \<noteq> 0 \<Longrightarrow> open_has_failure_time (fst (record_failure clk cb n))"
  by (simp add: open_has_failure_time_def record_failure_def state_get_def Let_def)

lemma invariant_record_success:
  "open_has_failure_time cb \<Longrightarrow> open_has_failure_time (fst (record_success clk cb n))"
  by (auto simp add: open_has_failure_time_def record_success_def state_get_def reset_counts_def
      Let_def split: option.splits if_splits)

lemma invariant_execute:
  assumes "\<forall>i. clk i \<noteq> 0" and "open_has_failure_time cb"
  shows "open_has_failure_time (fst (snd (execute clk name run cb n)))"
proof -
  obtain s cb1 n1 where g: "state_get clk cb n = (s, cb1, n1)"
    by (cases "state_get clk cb n")
  have i1: "open_has_failure_time cb1"
    using invariant_state_get [OF assms(2), of clk n] g by simp
  have f: "open_has_failure_time (fst (record_failure clk cb1 n1))"
    using assms(1) by (simp add: invariant_record_failure)
  have k: "open_has_failure_time (fst (record_success clk cb1 n1))"
    using i1 by (rule invariant_record_success)
  show ?thesis
    using g i1 f k by (simp add: execute_def split: awaited.splits prod.splits)
qed

lemma invariant_breaker_call:
  assumes "\<forall>i. clk i \<noteq> 0" and "open_has_failure_time cb"
  shows "open_has_failure_time (fst (breaker_call clk x cb n))"
proof (cases x)
  case ReadState
  then show ?thesis
    using invariant_state_get [OF assms(2), of clk n] by (cases "state_get clk cb n") simp
next
  case RecordFailure
  then show ?thesis
    using assms(1) by (simp add: invariant_record_failure)
next
  case RecordSuccess
  then show ?thesis
    using assms(2) by (simp add: invariant_record_success)
next
  case ResetCounts
  then show ?thesis
    using assms(2) by (simp add: invariant_reset_counts)
next
  case (Execute name run)
  then show ?thesis
    using invariant_execute [OF assms, of name run n] by (cases "execute clk name run cb n") simp
next
  case AssignFailureCount
  then show ?thesis
    using assms(2) by (simp add: open_has_failure_time_def)
next
  case ResetClosed
  then show ?thesis
    by (simp add: open_has_failure_time_def)
qed

lemma invariant_breaker_calls:
  "\<forall>i. clk i \<noteq> 0 \<Longrightarrow> open_has_failure_time cb \<Longrightarrow>
   open_has_failure_time (fst (breaker_calls clk xs cb n))"
proof (induction xs arbitrary: cb n)
  case Nil
  then show ?case by simp
next
  case (Cons x xs)
  obtain cb1 n1 where c: "breaker_call clk x cb n = (cb1, n1)"
    by (cases "breaker_call clk x cb n")
  have "open_has_failure_time cb1"
    using invariant_breaker_call [OF Cons.prems, of x n] c by simp
  then show ?case
    using Cons.IH [OF Cons.prems(1), of cb1 n1] c by simp
qed

text \<open>
  C4. For every breaker that any sequence of calls has made of the breaker
  \<^verbatim>\<open>__init__\<close> builds, under a clock that never reads exactly \<open>0.0\<close> (the value of
  \<^verbatim>\<open>time.monotonic()\<close> in a running process): if its stored state is Open then a failure
  time \<open>t\<close> is recorded, and a read of \<^verbatim>\<open>state\<close> at clock value \<open>clk m\<close> returns Open and
  leaves the breaker as it is when \<open>clk m - t \<le> recovery_timeout\<close>, and returns HalfOpen,
  storing HalfOpen and a zero success count, when \<open>clk m - t > recovery_timeout\<close>. The read
  itself makes the transition.
\<close>

theorem open_state_read:
  assumes "\<forall>i. clk i \<noteq> 0"
    and "breaker_calls clk calls (CircuitBreaker_init ft rt hoa) n0 = (cb, n)"
    and "priv_state cb = OPEN"
  shows "\<exists>t. priv_last_failure_time cb = Some t \<and>
           (clk m - t \<le> recovery_timeout cb \<longrightarrow> state_get clk cb m = (OPEN, cb, Suc m)) \<and>
           (clk m - t > recovery_timeout cb \<longrightarrow>
              state_get clk cb m =
                (HALF_OPEN, cb\<lparr>priv_state := HALF_OPEN, priv_success_count := 0\<rparr>, Suc m))"
proof -
  have "open_has_failure_time (fst (breaker_calls clk calls (CircuitBreaker_init ft rt hoa) n0))"
    using assms(1) invariant_init by (rule invariant_breaker_calls)
  then have "open_has_failure_time cb"
    using assms(2) by simp
  then obtain t where t: "priv_last_failure_time cb = Some t" "t \<noteq> 0"
    using assms(3) by (auto simp add: open_has_failure_time_def split: option.splits)
  show ?thesis
    using t assms(3) by (simp add: state_get_def)
qed

theorem open_state_read_witness:
  "priv_state (fst (breaker_calls (\<lambda>i. 5 + 10 * real i) [RecordFailure] (CircuitBreaker_init 1 30 2) 0)) = OPEN \<and>
   fst (state_get (\<lambda>i. 5 + 10 * real i)
     (fst (breaker_calls (\<lambda>i. 5 + 10 * real i) [RecordFailure] (CircuitBreaker_init 1 30 2) 0)) 1) = OPEN \<and>
   fst (state_get (\<lambda>i. 5 + 10 * real i)
     (fst (breaker_calls (\<lambda>i. 5 + 10 * real i) [RecordFailure] (CircuitBreaker_init 1 30 2) 0)) 5) = HALF_OPEN"
proof -
  let ?clk = "\<lambda>i. 5 + 10 * real i"
  let ?cb = "(CircuitBreaker_init 1 30 2)\<lparr>priv_failure_count := 1,
               priv_last_failure_time := Some 5, priv_state := OPEN\<rparr>"
  have a: "\<forall>i. ?clk i \<noteq> 0"
  proof
    fix i :: nat
    have "0 < 5 + 10 * real i"
      by (simp add: add_pos_nonneg)
    then show "5 + 10 * real i \<noteq> 0"
      by simp
  qed
  have b: "breaker_calls ?clk [RecordFailure] (CircuitBreaker_init 1 30 2) 0 = (?cb, 1)"
    by (simp add: record_failure_def state_get_def CircuitBreaker_init_def Let_def)
  have c: "priv_state ?cb = OPEN" and d: "priv_last_failure_time ?cb = Some 5"
    and r: "recovery_timeout ?cb = 30"
    by (simp_all add: CircuitBreaker_init_def)
  obtain t1 where o1: "priv_last_failure_time ?cb = Some t1"
      "?clk 1 - t1 \<le> recovery_timeout ?cb \<longrightarrow> state_get ?clk ?cb 1 = (OPEN, ?cb, Suc 1)"
    using open_state_read [OF a b c, of 1] by blast
  obtain t5 where o5: "priv_last_failure_time ?cb = Some t5"
      "?clk 5 - t5 > recovery_timeout ?cb \<longrightarrow>
         state_get ?clk ?cb 5 =
           (HALF_OPEN, ?cb\<lparr>priv_state := HALF_OPEN, priv_success_count := 0\<rparr>, Suc 5)"
    using open_state_read [OF a b c, of 5] by blast
  have t1: "t1 = 5" and t5: "t5 = 5"
    using o1(1) o5(1) d by simp_all
  have "state_get ?clk ?cb 1 = (OPEN, ?cb, Suc 1)"
    using o1(2) unfolding t1 r by simp
  moreover have "state_get ?clk ?cb 5 =
      (HALF_OPEN, ?cb\<lparr>priv_state := HALF_OPEN, priv_success_count := 0\<rparr>, Suc 5)"
    using o5(2) unfolding t5 r by simp
  ultimately show ?thesis
    unfolding b using c by simp
qed

text \<open>
  The hypothesis on the clock is needed only because the test
  \<^verbatim>\<open>self._last_failure_time and ...\<close> takes a recorded time of \<open>0.0\<close> for no time at all:
  under a clock that reads 0 at the failure, the breaker still reads Open at clock value
  100, with a recovery timeout of 30.
\<close>

lemma state_get_zero_failure_time:
  "priv_last_failure_time (fst (record_failures (\<lambda>i. if i = 0 then 0 else 100) 1
      (CircuitBreaker_init 1 30 2) 0)) = Some 0 \<and>
   fst (state_get (\<lambda>i. if i = 0 then 0 else 100)
      (fst (record_failures (\<lambda>i. if i = 0 then 0 else 100) 1 (CircuitBreaker_init 1 30 2) 0)) 1) = OPEN"
  by (simp add: record_failure_def state_get_def CircuitBreaker_init_def Let_def)

text \<open>
  C5. For a breaker whose stored state is HalfOpen, whatever its success count, one
  \<^verbatim>\<open>record_failure()\<close> call stores Open and sets the failure count to
  \<open>failure_threshold\<close>; the success count is left as it was.
\<close>

theorem half_open_failure_reopens:
  assumes "priv_state cb = HALF_OPEN"
  shows "priv_state (fst (record_failure clk cb n)) = OPEN \<and>
         priv_failure_count (fst (record_failure clk cb n)) = failure_threshold cb \<and>
         priv_success_count (fst (record_failure clk cb n)) = priv_success_count cb \<and>
         priv_last_failure_time (fst (record_failure clk cb n)) = Some (clk n)"
  using assms by (simp add: record_failure_def state_get_def Let_def)

theorem half_open_failure_reopens_witness:
  "priv_state (fst (record_failure (\<lambda>i. 7) ((CircuitBreaker_init 8 30 2)
      \<lparr>priv_state := HALF_OPEN, priv_success_count := 1\<rparr>) 0)) = OPEN \<and>
   priv_failure_count (fst (record_failure (\<lambda>i. 7) ((CircuitBreaker_init 8 30 2)
      \<lparr>priv_state := HALF_OPEN, priv_success_count := 1\<rparr>) 0)) = 8"
proof -
  let ?cb = "(CircuitBreaker_init 8 30 2)\<lparr>priv_state := HALF_OPEN, priv_success_count := 1\<rparr>"
  have a: "priv_state ?cb = HALF_OPEN" and t: "failure_threshold ?cb = 8"
    by (simp_all add: CircuitBreaker_init_def)
  show ?thesis
    using half_open_failure_reopens [OF a, of "\<lambda>i. 7" 0] by (simp add: t)
qed

section \<open>Properties of the work queue\<close>

lemma full_start: "full (start q) = full q"
  by (simp add: full_def start_def)

lemma put_never_raises: "put q item \<noteq> Raise e"
  by (simp add: put_def put_nowait_def)

lemma enqueue_work_never_False: "fst (enqueue_work q item) \<noteq> Return False"
  by (simp add: enqueue_work_def put_def put_nowait_def Let_def)

text \<open>
  C1. What the code does at capacity. For a queue with a positive bound that already holds
  that many items, \<^verbatim>\<open>enqueue_work\<close> does not return false: the caller stays suspended in
  \<^verbatim>\<open>await self._queue.put(item)\<close>, and the stored items are unchanged while it waits.
  The \<^verbatim>\<open>except asyncio.QueueFull\<close> clause is never reached
  (\<open>enqueue_work_never_False\<close>), because \<^verbatim>\<open>put\<close> waits where \<^verbatim>\<open>put_nowait\<close> raises.
\<close>

theorem enqueue_work_at_capacity:
  assumes "0 < maxsize q" and "maxsize q \<le> int (length (queue q))"
  shows "fst (enqueue_work q item) = Suspended \<and>
         fst (enqueue_work q item) \<noteq> Return False \<and>
         queue (snd (enqueue_work q item)) = queue q"
  using assms by (simp add: enqueue_work_def put_def full_def start_def Let_def)

theorem enqueue_work_at_capacity_witness:
  "fst (enqueue_work
     ((AsyncWorkQueue_init 2 1)\<lparr>queue := [example_item ''a'' (\<lambda>t. Returns PyNone)], running := True\<rparr>)
     (example_item ''b'' (\<lambda>t. Returns PyNone))) = Suspended"
proof -
  let ?q = "(AsyncWorkQueue_init 2 1)\<lparr>queue := [example_item ''a'' (\<lambda>t. Returns PyNone)],
              running := True\<rparr>"
  have a: "0 < maxsize ?q" and b: "maxsize ?q \<le> int (length (queue ?q))"
    by (simp_all add: AsyncWorkQueue_init_def)
  show ?thesis
    using enqueue_work_at_capacity [OF a b, of "example_item ''b'' (\<lambda>t. Returns PyNone)"] by simp
qed

lemma results_task_done: "results (snd (task_done q)) = results q"
  by (simp add: task_done_def)

lemma worker_pass_propagates:
  "worker_pass cancelled q = Propagate e q' \<Longrightarrow> \<not> is_Exception e"
  by (auto simp add: worker_pass_def split: option.splits prod.splits PyExc.splits if_splits)

lemma worker_propagates: "worker cs q = Some (Inl e) \<Longrightarrow> \<not> is_Exception e"
proof (induction cs arbitrary: q)
  case Nil
  then show ?case by simp
next
  case (Cons cancelled rest)
  show ?case
  proof (cases "worker_pass cancelled q")
    case (Continue q1)
    then show ?thesis
      using Cons.prems Cons.IH [of q1] by (simp split: if_splits)
  next
    case (Break q1)
    then show ?thesis
      using Cons.prems by (simp split: if_splits)
  next
    case (Propagate e' q1)
    then have "e' = e"
      using Cons.prems by (simp split: if_splits)
    then show ?thesis
      using Propagate worker_pass_propagates by blast
  qed
qed

lemma try_item_escapes:
  assumes "\<not> is_Exception e"
    and "item_task_func item (item_timeout item) = Throws e \<or>
         (\<exists>c. item_task_func item (item_timeout item) = Returns (PyCoroutine c) \<and>
              c (item_timeout item) = Throws e)"
  shows "try_item q item = Inl e"
  using assms by (auto simp add: try_item_def wait_for_def)

lemma process_item_escapes:
  assumes "\<not> is_Exception e" and "try_item q item = Inl e"
  shows "results (snd (process_item q item)) = results q"
    and "0 < unfinished_tasks q \<Longrightarrow>
         process_item q item = (Some e, q\<lparr>unfinished_tasks := unfinished_tasks q - 1\<rparr>)"
  using assms by (cases e; simp add: process_item_def task_done_def)+

text \<open>
  C9, as amended. One worker pass over an item whose awaited call returns, runs out of
  time or raises an exception that \<^verbatim>\<open>except Exception\<close> catches writes exactly one entry,
  under the item's id, into the result table: a success entry with the value when the
  call returns a value that is not a coroutine object, or returns a coroutine object whose
  second await (again under the item's timeout) returns one; an error entry
  "Nested coroutine execution failed: ..." when that second await times out or raises; a
  timeout entry when the first await exceeds the item's timeout (or raises
  \<^verbatim>\<open>asyncio.TimeoutError\<close> itself); an error entry with the exception's text when it
  raises anything else. An exception that is not an \<^verbatim>\<open>Exception\<close> (the
  \<^verbatim>\<open>CancelledError\<close> of a cancelled await, \<^verbatim>\<open>SystemExit\<close>, \<^verbatim>\<open>KeyboardInterrupt\<close>), from
  either await, writes no entry: the item is marked done, and the exception leaves the
  pass and ends the worker. Nothing that is an \<^verbatim>\<open>Exception\<close> ever leaves the worker loop.
\<close>

theorem worker_result_entry:
  "(\<forall>v. item_task_func item (item_timeout item) = Returns v \<and> \<not> iscoroutine v \<longrightarrow>
      results (snd (process_item q item)) = (results q)(item_id item \<mapsto> success_entry v)) \<and>
   (\<forall>c v. item_task_func item (item_timeout item) = Returns (PyCoroutine c) \<and>
      c (item_timeout item) = Returns v \<longrightarrow>
      results (snd (process_item q item)) = (results q)(item_id item \<mapsto> success_entry v)) \<and>
   (\<forall>c. item_task_func item (item_timeout item) = Returns (PyCoroutine c) \<and>
      c (item_timeout item) = Exceeds \<longrightarrow>
      results (snd (process_item q item)) =
        (results q)(item_id item \<mapsto> error_entry ''Nested coroutine execution failed: '')) \<and>
   (\<forall>c e. item_task_func item (item_timeout item) = Returns (PyCoroutine c) \<and>
      c (item_timeout item) = Throws e \<and> is_Exception e \<longrightarrow>
      results (snd (process_item q item)) =
        (results q)(item_id item \<mapsto>
           error_entry (''Nested coroutine execution failed: '' @ str_exc e))) \<and>
   (item_task_func item (item_timeout item) = Exceeds \<or>
    (\<exists>m. item_task_func item (item_timeout item) = Throws (TimeoutError m)) \<longrightarrow>
      results (snd (process_item q item)) =
        (results q)(item_id item \<mapsto> timeout_entry (''Task '' @ item_id item @ '' timed out''))) \<and>
   (\<forall>e. item_task_func item (item_timeout item) = Throws e \<and> is_Exception e \<and>
      (\<forall>m. e \<noteq> TimeoutError m) \<longrightarrow>
      results (snd (process_item q item)) = (results q)(item_id item \<mapsto> error_entry (str_exc e))) \<and>
   (\<forall>e. \<not> is_Exception e \<and>
      (item_task_func item (item_timeout item) = Throws e \<or>
       (\<exists>c. item_task_func item (item_timeout item) = Returns (PyCoroutine c) \<and>
            c (item_timeout item) = Throws e)) \<longrightarrow>
      results (snd (process_item q item)) = results q \<and>
      (0 < unfinished_tasks q \<longrightarrow>
         process_item q item = (Some e, q\<lparr>unfinished_tasks := unfinished_tasks q - 1\<rparr>) \<and>
         (\<forall>cancelled q0. get_within q0 = Some (item, q) \<longrightarrow>
            worker_pass cancelled q0 =
              Propagate e (q\<lparr>unfinished_tasks := unfinished_tasks q - 1\<rparr>)))) \<and>
   ((\<exists>entry. results (snd (process_item q item)) = (results q)(item_id item \<mapsto> entry)) \<or>
    (\<exists>e. \<not> is_Exception e \<and>
       (item_task_func item (item_timeout item) = Throws e \<or>
        (\<exists>c. item_task_func item (item_timeout item) = Returns (PyCoroutine c) \<and>
             c (item_timeout item) = Throws e)))) \<and>
   (\<forall>cs q0 e. worker cs q0 = Some (Inl e) \<longrightarrow> \<not> is_Exception e)"
proof -
  let ?F = "item_task_func item (item_timeout item)"
  have 1: "results (snd (process_item q item)) = (results q)(item_id item \<mapsto> success_entry v)"
    if "?F = Returns v" "\<not> iscoroutine v" for v
    using that
    by (cases v) (simp_all add: process_item_def try_item_def wait_for_def store_def results_task_done)
  have 2: "results (snd (process_item q item)) = (results q)(item_id item \<mapsto> success_entry v)"
    if "?F = Returns (PyCoroutine c)" "c (item_timeout item) = Returns v" for c v
    using that
    by (simp add: process_item_def try_item_def wait_for_def store_def results_task_done)
  have 3: "results (snd (process_item q item)) =
        (results q)(item_id item \<mapsto> error_entry ''Nested coroutine execution failed: '')"
    if "?F = Returns (PyCoroutine c)" "c (item_timeout item) = Exceeds" for c
    using that
    by (simp add: process_item_def try_item_def wait_for_def store_def results_task_done)
  have 4: "results (snd (process_item q item)) =
        (results q)(item_id item \<mapsto> error_entry (''Nested coroutine execution failed: '' @ str_exc e))"
    if "?F = Returns (PyCoroutine c)" "c (item_timeout item) = Throws e" "is_Exception e" for c e
    using that
    by (simp add: process_item_def try_item_def wait_for_def store_def results_task_done)
  have 5: "results (snd (process_item q item)) =
        (results q)(item_id item \<mapsto> timeout_entry (''Task '' @ item_id item @ '' timed out''))"
    if "?F = Exceeds \<or> (\<exists>m. ?F = Throws (TimeoutError m))"
    using that
    by (auto simp add: process_item_def try_item_def wait_for_def store_def results_task_done)
  have 6: "results (snd (process_item q item)) = (results q)(item_id item \<mapsto> error_entry (str_exc e))"
    if "?F = Throws e" "is_Exception e" "\<forall>m. e \<noteq> TimeoutError m" for e
    using that
    by (cases e) (simp_all add: process_item_def try_item_def wait_for_def store_def results_task_done)
  have 7: "results (snd (process_item q item)) = results q \<and>
      (0 < unfinished_tasks q \<longrightarrow>
         process_item q item = (Some e, q\<lparr>unfinished_tasks := unfinished_tasks q - 1\<rparr>) \<and>
         (\<forall>cancelled q0. get_within q0 = Some (item, q) \<longrightarrow>
            worker_pass cancelled q0 =
              Propagate e (q\<lparr>unfinished_tasks := unfinished_tasks q - 1\<rparr>)))"
    if h: "\<not> is_Exception e \<and>
        (?F = Throws e \<or> (\<exists>c. ?F = Returns (PyCoroutine c) \<and> c (item_timeout item) = Throws e))"
    for e
  proof -
    have ne: "\<not> is_Exception e"
      using h by simp
    have t: "try_item q item = Inl e"
      using h by (intro try_item_escapes) simp_all
    have p: "process_item q item = (Some e, q\<lparr>unfinished_tasks := unfinished_tasks q - 1\<rparr>)"
      if "0 < unfinished_tasks q"
      using process_item_escapes(2) [OF ne t that] .
    have w: "worker_pass cancelled q0 = Propagate e (q\<lparr>unfinished_tasks := unfinished_tasks q - 1\<rparr>)"
      if "0 < unfinished_tasks q" "get_within q0 = Some (item, q)" for cancelled q0
      using that ne p by (cases e) (simp_all add: worker_pass_def)
    show ?thesis
      using process_item_escapes(1) [OF ne t] p w by blast
  qed
  have 8: "(\<exists>entry. results (snd (process_item q item)) = (results q)(item_id item \<mapsto> entry)) \<or>
      (\<exists>e. \<not> is_Exception e \<and>
         (?F = Throws e \<or> (\<exists>c. ?F = Returns (PyCoroutine c) \<and> c (item_timeout item) = Throws e)))"
  proof (cases ?F)
    case (Returns v)
    show ?thesis
    proof (cases "iscoroutine v")
      case False
      then show ?thesis using 1 Returns by blast
    next
      case True
      then obtain c where v: "v = PyCoroutine c" by (cases v) simp_all
      show ?thesis
      proof (cases "c (item_timeout item)")
        case (Returns v2)
        then show ?thesis using 2 \<open>?F = Returns v\<close> v by blast
      next
        case Exceeds
        then show ?thesis using 3 \<open>?F = Returns v\<close> v by blast
      next
        case (Throws e)
        then show ?thesis using 4 \<open>?F = Returns v\<close> v by (cases "is_Exception e") blast+
      qed
    qed
  next
    case Exceeds
    then show ?thesis using 5 by blast
  next
    case (Throws e)
    show ?thesis
    proof (cases "\<exists>m. e = TimeoutError m")
      case True
      then show ?thesis using 5 Throws by blast
    next
      case False
      then show ?thesis using 6 Throws by (cases "is_Exception e") blast+
    qed
  qed
  have 9: "\<not> is_Exception e" if "worker cs q0 = Some (Inl e)" for cs q0 e
    using that by (rule worker_propagates)
  show ?thesis
    using 1 2 3 4 5 6 7 8 9 by blast
qed

theorem worker_result_entry_witness:
  "results (snd (process_item ((AsyncWorkQueue_init 2 50)\<lparr>unfinished_tasks := 1\<rparr>)
      (example_item ''a'' (\<lambda>t. Returns (PyInt 3))))) ''a'' = Some (success_entry (PyInt 3)) \<and>
   results (snd (process_item ((AsyncWorkQueue_init 2 50)\<lparr>unfinished_tasks := 1\<rparr>)
      (example_item ''a'' (\<lambda>t. Exceeds)))) ''a'' = Some (timeout_entry ''Task a timed out'') \<and>
   results (snd (process_item ((AsyncWorkQueue_init 2 50)\<lparr>unfinished_tasks := 1\<rparr>)
      (example_item ''a'' (\<lambda>t. Throws (ValueError ''bad''))))) ''a'' = Some (error_entry ''bad'') \<and>
   results (snd (process_item ((AsyncWorkQueue_init 2 50)\<lparr>unfinished_tasks := 1\<rparr>)
      (example_item ''a'' (\<lambda>t. Throws (CancelledError []))))) ''a'' = None \<and>
   fst (process_item ((AsyncWorkQueue_init 2 50)\<lparr>unfinished_tasks := 1\<rparr>)
      (example_item ''a'' (\<lambda>t. Throws (CancelledError [])))) = Some (CancelledError [])"
proof -
  let ?q = "(AsyncWorkQueue_init 2 50)\<lparr>unfinished_tasks := 1\<rparr>"
  let ?i1 = "example_item ''a'' (\<lambda>t. Returns (PyInt 3))"
  let ?i2 = "example_item ''a'' (\<lambda>t. Exceeds)"
  let ?i3 = "example_item ''a'' (\<lambda>t. Throws (ValueError ''bad''))"
  let ?i4 = "example_item ''a'' (\<lambda>t. Throws (CancelledError []))"
  have a: "item_task_func ?i1 (item_timeout ?i1) = Returns (PyInt 3) \<and> \<not> iscoroutine (PyInt 3)"
    by (simp add: example_item_def)
  have b: "item_task_func ?i2 (item_timeout ?i2) = Exceeds \<or>
           (\<exists>m. item_task_func ?i2 (item_timeout ?i2) = Throws (TimeoutError m))"
    by (simp add: example_item_def)
  have c: "item_task_func ?i3 (item_timeout ?i3) = Throws (ValueError ''bad'') \<and>
           is_Exception (ValueError ''bad'') \<and> (\<forall>m. ValueError ''bad'' \<noteq> TimeoutError m)"
    by (simp add: example_item_def)
  have d: "\<not> is_Exception (CancelledError []) \<and>
           (item_task_func ?i4 (item_timeout ?i4) = Throws (CancelledError []) \<or>
            (\<exists>c. item_task_func ?i4 (item_timeout ?i4) = Returns (PyCoroutine c) \<and>
                 c (item_timeout ?i4) = Throws (CancelledError [])))"
    by (simp add: example_item_def)
  have u: "0 < unfinished_tasks ?q"
    by simp
  have "results (snd (process_item ?q ?i1)) = (results ?q)(item_id ?i1 \<mapsto> success_entry (PyInt 3))"
    using worker_result_entry [of ?i1 ?q] a by blast
  moreover have "results (snd (process_item ?q ?i2)) =
      (results ?q)(item_id ?i2 \<mapsto> timeout_entry (''Task '' @ item_id ?i2 @ '' timed out''))"
    using worker_result_entry [of ?i2 ?q] b by blast
  moreover have "results (snd (process_item ?q ?i3)) =
      (results ?q)(item_id ?i3 \<mapsto> error_entry (str_exc (ValueError ''bad'')))"
    using worker_result_entry [of ?i3 ?q] c by blast
  moreover have "results (snd (process_item ?q ?i4)) = results ?q \<and>
      process_item ?q ?i4 = (Some (CancelledError []), ?q\<lparr>unfinished_tasks := unfinished_tasks ?q - 1\<rparr>)"
    using worker_result_entry [of ?i4 ?q] d u by blast
  ultimately show ?thesis
    by (simp add: example_item_def AsyncWorkQueue_init_def)
qed

text \<open>
  The claim as written fails for a call that completes with a coroutine object whose
  second await exceeds the item's timeout: the call completed and the item ran out of time,
  yet the entry is neither "success" nor "timeout" but "error".
\<close>

theorem worker_result_entry_counterexample:
  "item_task_func nested_item (item_timeout nested_item) = Returns (PyCoroutine (\<lambda>t. Exceeds)) \<and>
   results (snd (process_item ((AsyncWorkQueue_init 2 50)\<lparr>unfinished_tasks := 1\<rparr>) nested_item)) ''a'' =
     Some (error_entry ''Nested coroutine execution failed: '') \<and>
   error_entry ''Nested coroutine execution failed: '' ''status'' = Some (PyStr ''error'')"
  by (simp add: nested_item_def example_item_def process_item_def try_item_def wait_for_def
      store_def task_done_def AsyncWorkQueue_init_def error_entry_def)

section \<open>Properties of the executor\<close>

lemma set_actual_fields [simp]:
  "trace (set_actual_circuit_breaker cb r) = trace r"
  "readings (set_actual_circuit_breaker cb r) = readings r"
  "recursion_check_buffer (agent (set_actual_circuit_breaker cb r)) = recursion_check_buffer (agent r)"
  "fallback_to_sync (agent (set_actual_circuit_breaker cb r)) = fallback_to_sync (agent r)"
  "execution_stats (agent (set_actual_circuit_breaker cb r)) = execution_stats (agent r)"
  by (simp_all add: set_actual_circuit_breaker_def split: option.splits)

lemma log_event_fields [simp]:
  "trace (log_event ev r) = trace r @ [ev]"
  "agent (log_event ev r) = agent r"
  "readings (log_event ev r) = readings r"
  "breaker_arg (log_event ev r) = breaker_arg r"
  by (simp_all add: log_event_def)

lemma actual_log_event [simp]:
  "actual_circuit_breaker (log_event ev r) = actual_circuit_breaker r"
  by (simp add: actual_circuit_breaker_def split: option.splits)

lemma count_failure_fields [simp]:
  "trace (count_failure e r) = trace r"
  "readings (count_failure e r) = readings r"
  "breaker_arg (count_failure e r) = breaker_arg r"
  "recursion_check_buffer (agent (count_failure e r)) = recursion_check_buffer (agent r)"
  "fallback_to_sync (agent (count_failure e r)) = fallback_to_sync (agent r)"
  "circuit_breaker (agent (count_failure e r)) = circuit_breaker (agent r)"
  by (cases e; simp add: count_failure_def)+

lemma attempt_trace [simp]: "trace (snd (attempt env c k t r)) = trace r"
  by (auto simp add: attempt_def split: prod.splits awaited.splits)

lemma attempt_buffer [simp]:
  "recursion_check_buffer (agent (snd (attempt env c k t r))) = recursion_check_buffer (agent r)"
  by (auto simp add: attempt_def split: prod.splits awaited.splits)

lemma attempt_flag [simp]:
  "fallback_to_sync (agent (snd (attempt env c k t r))) = fallback_to_sync (agent r)"
  by (auto simp add: attempt_def split: prod.splits awaited.splits)

lemma retry_loop_exit:
  "\<not> current_retry \<le> max_retries c \<Longrightarrow>
   retry_loop env c current_retry current_timeout last_exception r =
     (case last_exception of
        Some e \<Rightarrow> (Inl e, r)
      | None \<Rightarrow>
          (Inl (Exception (''Task '' @ [CHR 0x27] @ task_id c @ [CHR 0x27]
                  @ '' failed after max retries without a specific exception.'')), r))"
  by (subst retry_loop.simps) simp

lemma retry_loop_success:
  "current_retry \<le> max_retries c \<Longrightarrow>
   attempt env c current_retry current_timeout
     (log_event (Attempt (current_retry + 1) current_timeout) r) = (Inr v, r1) \<Longrightarrow>
   retry_loop env c current_retry current_timeout last_exception r = (Inr v, r1)"
  by (subst retry_loop.simps) simp

lemma retry_loop_recursion:
  "current_retry \<le> max_retries c \<Longrightarrow>
   attempt env c current_retry current_timeout
     (log_event (Attempt (current_retry + 1) current_timeout) r) = (Inl e, r1) \<Longrightarrow>
   is_RecursionError e \<Longrightarrow>
   retry_loop env c current_retry current_timeout last_exception r =
     (Inl e, (log_event (Failed e) r1)
               \<lparr>agent := (agent (log_event (Failed e) r1))\<lparr>fallback_to_sync := True\<rparr>\<rparr>)"
  by (subst retry_loop.simps) simp

lemma is_RecursionError_Exception: "is_RecursionError e \<Longrightarrow> is_Exception e"
  by (cases e) (simp_all add: is_RecursionError_def)

lemma retry_loop_propagate:
  "current_retry \<le> max_retries c \<Longrightarrow>
   attempt env c current_retry current_timeout
     (log_event (Attempt (current_retry + 1) current_timeout) r) = (Inl e, r1) \<Longrightarrow>
   \<not> is_Exception e \<Longrightarrow>
   retry_loop env c current_retry current_timeout last_exception r = (Inl e, r1)"
  using is_RecursionError_Exception [of e] by (subst retry_loop.simps) auto

lemma retry_loop_retry:
  "current_retry + 1 \<le> max_retries c \<Longrightarrow>
   attempt env c current_retry current_timeout
     (log_event (Attempt (current_retry + 1) current_timeout) r) = (Inl e, r1) \<Longrightarrow>
   \<not> is_RecursionError e \<Longrightarrow> is_Exception e \<Longrightarrow>
   retry_loop env c current_retry current_timeout last_exception r =
     retry_loop env c (current_retry + 1) (current_timeout * backoff_factor c) (Some e)
       (log_event (Sleep (backoff_factor c ^ nat current_retry))
          (count_failure e (log_event (Failed e) r1)))"
  by (subst retry_loop.simps) simp

lemma retry_loop_last:
  "current_retry = max_retries c \<Longrightarrow>
   attempt env c current_retry current_timeout
     (log_event (Attempt (current_retry + 1) current_timeout) r) = (Inl e, r1) \<Longrightarrow>
   \<not> is_RecursionError e \<Longrightarrow> is_Exception e \<Longrightarrow>
   retry_loop env c current_retry current_timeout last_exception r =
     (Inl e, count_failure e (log_event (Failed e) r1))"
  by (subst retry_loop.simps) (simp add: retry_loop_exit)

lemma attempt_gate:
  "getrecursionlimit env - recursion_check_buffer (agent r) \<le> stack_depth env k \<Longrightarrow>
   attempt env c k t r =
     (Inl (RecursionError (''Preemptive recursion depth stop for '' @ task_full_id (task_id c) k)), r)"
  by (simp add: attempt_def)

lemma execute_admitted_throws:
  "fst (state_get clk cb n) \<noteq> OPEN \<Longrightarrow>
   fst (execute clk name (Throws e :: PyVal awaited) cb n) = Throws e"
  by (auto simp add: execute_def split: prod.splits)

lemma attempt_throws:
  assumes "stack_depth env k < getrecursionlimit env - recursion_check_buffer (agent r)"
    and "0 < t"
    and "fst (state_get (monotonic env) (actual_circuit_breaker r) (readings r)) \<noteq> OPEN"
    and "task_body c k t = Throws e"
  shows "fst (attempt env c k t r) = Inl e"
proof -
  obtain out cb n where ex: "execute (monotonic env) (task_name c) (Throws e :: PyVal awaited)
      (actual_circuit_breaker r) (readings r) = (out, cb, n)"
    by (cases "execute (monotonic env) (task_name c) (Throws e :: PyVal awaited)
                 (actual_circuit_breaker r) (readings r)")
  have "out = Throws e"
    using execute_admitted_throws [OF assms(3), of "task_name c" e] ex by simp
  then show ?thesis
    using assms(1,2,4) ex by (simp add: attempt_def)
qed

text \<open>
  C2. What the code does. \<^verbatim>\<open>JSXContentAnalyzer.reset_system_state\<close> raises
  \<^verbatim>\<open>AttributeError\<close> on every agent, at the assignment to the property \<^verbatim>\<open>state\<close>, and
  leaves the breaker's stored state and failure count, the sync-mode flag and the
  counters as they were; so does every one of any number of consecutive calls
  (\<open>reset_repeatedly_raises\<close>).
\<close>

theorem reset_system_state_raises:
  "(\<exists>m. fst (reset_system_state self) = Some (AttributeError m)) \<and>
   priv_state (circuit_breaker (snd (reset_system_state self))) = priv_state (circuit_breaker self) \<and>
   priv_failure_count (circuit_breaker (snd (reset_system_state self))) =
     priv_failure_count (circuit_breaker self) \<and>
   fallback_to_sync (snd (reset_system_state self)) = fallback_to_sync self \<and>
   execution_stats (snd (reset_system_state self)) = execution_stats self"
  by (simp add: reset_system_state_def state_set_def Let_def)

lemma reset_repeatedly_raises:
  "length (fst (reset_repeatedly k self)) = k \<and>
   list_all (\<lambda>e. \<exists>m. e = Some (AttributeError m)) (fst (reset_repeatedly k self)) \<and>
   priv_state (circuit_breaker (snd (reset_repeatedly k self))) = priv_state (circuit_breaker self) \<and>
   priv_failure_count (circuit_breaker (snd (reset_repeatedly k self))) =
     priv_failure_count (circuit_breaker self) \<and>
   fallback_to_sync (snd (reset_repeatedly k self)) = fallback_to_sync self \<and>
   execution_stats (snd (reset_repeatedly k self)) = execution_stats self"
proof (induction k arbitrary: self)
  case 0
  show ?case by simp
next
  case (Suc k)
  obtain e self1 where r: "reset_system_state self = (e, self1)"
    by (cases "reset_system_state self")
  have one: "(\<exists>m. e = Some (AttributeError m)) \<and>
      priv_state (circuit_breaker self1) = priv_state (circuit_breaker self) \<and>
      priv_failure_count (circuit_breaker self1) = priv_failure_count (circuit_breaker self) \<and>
      fallback_to_sync self1 = fallback_to_sync self \<and>
      execution_stats self1 = execution_stats self"
    using r by (auto simp add: reset_system_state_def state_set_def Let_def)
  obtain es self2 where k: "reset_repeatedly k self1 = (es, self2)"
    by (cases "reset_repeatedly k self1")
  show ?case
    using Suc.IH [of self1] one r k by simp
qed

text \<open>
  C10, as amended. When \<^verbatim>\<open>task_func\<close> is a coroutine object or a future, the call awaits
  it once under \<open>initial_timeout\<close>: it returns the awaited value, and on a timeout or any
  other exception that is an \<^verbatim>\<open>Exception\<close> it returns what
  \<^verbatim>\<open>_get_fallback_result(task_id)\<close> gives instead of raising. An exception that is not an
  \<^verbatim>\<open>Exception\<close> is raised to the caller. Nothing else changes: no attempt, no sleep, no
  clock reading, and nothing of the breaker. With the method of \<^verbatim>\<open>BaseAsyncAgent\<close> the
  placeholder is \<^verbatim>\<open>FALLBACK_RESULT_FOR_<task_id>\<close> and the whole state is as before.
\<close>

theorem await_directly_pending:
  assumes "task = CoroutineObject aw \<or> task = FutureObject aw"
  shows "execute_with_resilience env fb tid task retries timeout0 backoff r =
           (case aw timeout0 of
              Returns v \<Rightarrow> (Inr v, r)
            | Exceeds \<Rightarrow> (Inr (fst (fb tid (agent r))), r\<lparr>agent := snd (fb tid (agent r))\<rparr>)
            | Throws e \<Rightarrow>
                if is_Exception e
                then (Inr (fst (fb tid (agent r))), r\<lparr>agent := snd (fb tid (agent r))\<rparr>)
                else (Inl e, r)) \<and>
         execute_with_resilience env get_fallback_result tid task retries timeout0 backoff r =
           (case aw timeout0 of
              Returns v \<Rightarrow> (Inr v, r)
            | Exceeds \<Rightarrow> (Inr (PyStr (''FALLBACK_RESULT_FOR_'' @ tid)), r)
            | Throws e \<Rightarrow>
                if is_Exception e then (Inr (PyStr (''FALLBACK_RESULT_FOR_'' @ tid)), r)
                else (Inl e, r))"
  using assms
  by (auto simp add: execute_with_resilience_def await_directly_def wait_for_def
      get_fallback_result_def split: awaited.splits prod.splits)

theorem await_directly_pending_witness:
  "execute_with_resilience example_env get_fallback_result ''t1''
     (CoroutineObject (\<lambda>t. Throws (Exception ''boom''))) 2 180 (3 / 2) example_run =
     (Inr (PyStr ''FALLBACK_RESULT_FOR_t1''), example_run) \<and>
   execute_with_resilience example_env get_fallback_result ''t1''
     (FutureObject (\<lambda>t. if t < 200 then Exceeds else Returns (PyInt 7))) 2 180 (3 / 2) example_run =
     (Inr (PyStr ''FALLBACK_RESULT_FOR_t1''), example_run)"
proof -
  have a: "CoroutineObject (\<lambda>t::real. Throws (Exception ''boom'')) =
             CoroutineObject (\<lambda>t. Throws (Exception ''boom'')) \<or>
           CoroutineObject (\<lambda>t::real. Throws (Exception ''boom'')) =
             FutureObject (\<lambda>t. Throws (Exception ''boom''))"
    by simp
  have b: "FutureObject (\<lambda>t::real. if t < 200 then Exceeds else Returns (PyInt 7)) =
             CoroutineObject (\<lambda>t. if t < 200 then Exceeds else Returns (PyInt 7)) \<or>
           FutureObject (\<lambda>t::real. if t < 200 then Exceeds else Returns (PyInt 7)) =
             FutureObject (\<lambda>t. if t < 200 then Exceeds else Returns (PyInt 7))"
    by simp
  show ?thesis
    using await_directly_pending [OF a, of example_env get_fallback_result "''t1''" 2 180 "3 / 2" example_run, THEN conjunct2]
      await_directly_pending [OF b, of example_env get_fallback_result "''t1''" 2 180 "3 / 2" example_run, THEN conjunct2]
    by simp
qed

text \<open>
  The claim as written fails for a future that has been cancelled: awaiting it raises
  \<^verbatim>\<open>asyncio.CancelledError\<close>, which \<^verbatim>\<open>except Exception\<close> does not catch, so the call raises
  it to the caller and no fallback result is returned.
\<close>

theorem await_directly_pending_counterexample:
  "execute_with_resilience example_env get_fallback_result ''t1''
     (FutureObject (\<lambda>t. Throws (CancelledError []))) 2 180 (3 / 2) example_run =
     (Inl (CancelledError []), example_run) \<and>
   fst (execute_with_resilience example_env get_fallback_result ''t1''
     (FutureObject (\<lambda>t. Throws (CancelledError []))) 2 180 (3 / 2) example_run) \<noteq>
     Inr (fst (get_fallback_result ''t1'' (agent example_run)))"
  by (simp add: execute_with_resilience_def await_directly_def wait_for_def)

lemma retry_loop_recursion_ends:
  "\<exists>tr. trace (snd (retry_loop env c k t le0 r)) = trace r @ tr \<and>
         (\<forall>e. Failed e \<in> set tr \<and> is_RecursionError e \<longrightarrow>
            tr \<noteq> [] \<and> last tr = Failed e \<and> fst (retry_loop env c k t le0 r) = Inl e \<and>
            fallback_to_sync (agent (snd (retry_loop env c k t le0 r))))"
proof (induction "nat (max_retries c + 1 - k)" arbitrary: k t le0 r)
  case 0
  then have gt: "\<not> k \<le> max_retries c"
    by simp
  have "trace (snd (retry_loop env c k t le0 r)) = trace r"
    by (simp add: retry_loop_exit [OF gt] split: option.splits)
  then show ?case
    by (intro exI [of _ "[]"]) simp
next
  case (Suc d)
  then have le: "k \<le> max_retries c"
    by linarith
  let ?r0 = "log_event (Attempt (k + 1) t) r"
  obtain res r1 where a: "attempt env c k t ?r0 = (res, r1)"
    by (cases "attempt env c k t ?r0")
  have "trace (snd (attempt env c k t ?r0)) = trace ?r0"
    by (rule attempt_trace)
  then have t1: "trace r1 = trace r @ [Attempt (k + 1) t]"
    unfolding a by simp
  show ?case
  proof (cases res)
    case (Inr v)
    have "retry_loop env c k t le0 r = (Inr v, r1)"
      using retry_loop_success [OF le] a Inr by simp
    then show ?thesis
      using t1 by (intro exI [of _ "[Attempt (k + 1) t]"]) simp
  next
    case (Inl e0)
    then have a': "attempt env c k t ?r0 = (Inl e0, r1)"
      using a by simp
    show ?thesis
    proof (cases "is_RecursionError e0")
      case True
      have "retry_loop env c k t le0 r =
              (Inl e0, (log_event (Failed e0) r1)
                 \<lparr>agent := (agent (log_event (Failed e0) r1))\<lparr>fallback_to_sync := True\<rparr>\<rparr>)"
        using retry_loop_recursion [OF le a' True] .
      then show ?thesis
        using t1 by (intro exI [of _ "[Attempt (k + 1) t, Failed e0]"]) simp
    next
      case False
      show ?thesis
      proof (cases "is_Exception e0")
        case nex: False
        have "retry_loop env c k t le0 r = (Inl e0, r1)"
          using retry_loop_propagate [OF le a' nex] .
        then show ?thesis
          using t1 by (intro exI [of _ "[Attempt (k + 1) t]"]) simp
      next
        case ex: True
        show ?thesis
        proof (cases "k + 1 \<le> max_retries c")
          case True
          define r2 where "r2 = log_event (Sleep (backoff_factor c ^ nat k))
                                  (count_failure e0 (log_event (Failed e0) r1))"
          have l: "retry_loop env c k t le0 r =
                     retry_loop env c (k + 1) (t * backoff_factor c) (Some e0) r2"
            unfolding r2_def by (rule retry_loop_retry [OF True a' False ex])
          have t2: "trace r2 = trace r @ [Attempt (k + 1) t, Failed e0, Sleep (backoff_factor c ^ nat k)]"
            using t1 by (simp add: r2_def)
          have m: "d = nat (max_retries c + 1 - (k + 1))"
            using Suc.hyps(2) by linarith
          obtain tr' where ih:
            "trace (snd (retry_loop env c (k + 1) (t * backoff_factor c) (Some e0) r2)) = trace r2 @ tr'"
            "\<forall>e. Failed e \<in> set tr' \<and> is_RecursionError e \<longrightarrow>
               tr' \<noteq> [] \<and> last tr' = Failed e \<and>
               fst (retry_loop env c (k + 1) (t * backoff_factor c) (Some e0) r2) = Inl e \<and>
               fallback_to_sync (agent (snd (retry_loop env c (k + 1) (t * backoff_factor c) (Some e0) r2)))"
            using Suc.hyps(1) [OF m, of "t * backoff_factor c" "Some e0" r2] by blast
          let ?tr = "[Attempt (k + 1) t, Failed e0, Sleep (backoff_factor c ^ nat k)] @ tr'"
          have tr: "trace (snd (retry_loop env c k t le0 r)) = trace r @ ?tr"
            unfolding l ih(1) t2 by simp
          have "tr' \<noteq> [] \<and> last ?tr = Failed e \<and> fst (retry_loop env c k t le0 r) = Inl e \<and>
                fallback_to_sync (agent (snd (retry_loop env c k t le0 r)))"
            if h: "Failed e \<in> set ?tr \<and> is_RecursionError e" for e
          proof -
            have "e \<noteq> e0"
              using h False by blast
            then have "Failed e \<in> set tr'"
              using h by simp
            then have "tr' \<noteq> [] \<and> last tr' = Failed e \<and>
               fst (retry_loop env c (k + 1) (t * backoff_factor c) (Some e0) r2) = Inl e \<and>
               fallback_to_sync (agent (snd (retry_loop env c (k + 1) (t * backoff_factor c) (Some e0) r2)))"
              using ih(2) h by blast
            then show ?thesis
              unfolding l by simp
          qed
          then show ?thesis
            using tr by (intro exI [of _ ?tr]) blast
        next
          case F2: False
          have eq: "k = max_retries c"
            using le F2 by linarith
          have "retry_loop env c k t le0 r = (Inl e0, count_failure e0 (log_event (Failed e0) r1))"
            using retry_loop_last [OF eq a' False ex] .
          then show ?thesis
            using t1 False by (intro exI [of _ "[Attempt (k + 1) t, Failed e0]"]) auto
        qed
      qed
    qed
  qed
qed

text \<open>
  C8. A call of \<^verbatim>\<open>execute_with_resilience\<close> with a callable, whose call-stack depth measured
  at the start of the first attempt is at or past the recursion limit minus the buffer,
  raises the recursion error at once, with the sync-mode flag set and nothing after the
  attempt's own two events: no sleep and no further attempt. The same holds when the
  operation, run by the breaker within a positive budget, raises a recursion error itself.
  At whatever attempt of the call a recursion error is caught, it is the last event of the
  call, it is what the call raises, and the flag is set. In the loop itself, the two
  statements hold in any pass (\<open>current_retry \<le> max_retries\<close>).
\<close>

theorem recursion_gate:
  "(0 \<le> retries \<and>
    getrecursionlimit env - recursion_check_buffer (agent r) \<le> stack_depth env 0 \<longrightarrow>
      execute_with_resilience env fb tid (Callable name body) retries T b r =
        (Inl (RecursionError (''Preemptive recursion depth stop for '' @ task_full_id tid 0)),
         r\<lparr>trace := trace r @ [Attempt 1 T,
                Failed (RecursionError (''Preemptive recursion depth stop for ''
                  @ task_full_id tid 0))],
           agent := (agent r)\<lparr>fallback_to_sync := True\<rparr>\<rparr>)) \<and>
   (\<forall>m. 0 \<le> retries \<and>
        stack_depth env 0 < getrecursionlimit env - recursion_check_buffer (agent r) \<and>
        0 < T \<and>
        fst (state_get (monotonic env) (actual_circuit_breaker r) (readings r)) \<noteq> OPEN \<and>
        body 0 T = Throws (RecursionError m) \<longrightarrow>
        fst (execute_with_resilience env fb tid (Callable name body) retries T b r) =
          Inl (RecursionError m) \<and>
        fallback_to_sync (agent (snd (execute_with_resilience env fb tid (Callable name body)
          retries T b r))) \<and>
        trace (snd (execute_with_resilience env fb tid (Callable name body) retries T b r)) =
          trace r @ [Attempt 1 T, Failed (RecursionError m)]) \<and>
   (\<forall>tr e. trace (snd (execute_with_resilience env fb tid (Callable name body) retries T b r)) =
             trace r @ tr \<and>
           Failed e \<in> set tr \<and> is_RecursionError e \<longrightarrow>
           last tr = Failed e \<and>
           fst (execute_with_resilience env fb tid (Callable name body) retries T b r) = Inl e \<and>
           fallback_to_sync (agent (snd (execute_with_resilience env fb tid (Callable name body)
             retries T b r)))) \<and>
   (current_retry \<le> max_retries c \<and>
    getrecursionlimit env - recursion_check_buffer (agent r) \<le> stack_depth env current_retry \<longrightarrow>
      retry_loop env c current_retry current_timeout last_exception r =
        (Inl (RecursionError (''Preemptive recursion depth stop for ''
                @ task_full_id (task_id c) current_retry)),
         r\<lparr>trace := trace r @ [Attempt (current_retry + 1) current_timeout,
                Failed (RecursionError (''Preemptive recursion depth stop for ''
                  @ task_full_id (task_id c) current_retry))],
           agent := (agent r)\<lparr>fallback_to_sync := True\<rparr>\<rparr>)) \<and>
   (\<forall>m. current_retry \<le> max_retries c \<and>
        stack_depth env current_retry < getrecursionlimit env - recursion_check_buffer (agent r) \<and>
        0 < current_timeout \<and>
        fst (state_get (monotonic env) (actual_circuit_breaker r) (readings r)) \<noteq> OPEN \<and>
        task_body c current_retry current_timeout = Throws (RecursionError m) \<longrightarrow>
        fst (retry_loop env c current_retry current_timeout last_exception r) =
          Inl (RecursionError m) \<and>
        fallback_to_sync (agent (snd (retry_loop env c current_retry current_timeout
          last_exception r))) \<and>
        trace (snd (retry_loop env c current_retry current_timeout last_exception r)) =
          trace r @ [Attempt (current_retry + 1) current_timeout, Failed (RecursionError m)])"
proof -
  have A: "retry_loop env c' k t le0 r =
          (Inl (RecursionError (''Preemptive recursion depth stop for ''
                  @ task_full_id (task_id c') k)),
           r\<lparr>trace := trace r @ [Attempt (k + 1) t,
                  Failed (RecursionError (''Preemptive recursion depth stop for ''
                    @ task_full_id (task_id c') k))],
             agent := (agent r)\<lparr>fallback_to_sync := True\<rparr>\<rparr>)"
    if le: "k \<le> max_retries c'"
      and g: "getrecursionlimit env - recursion_check_buffer (agent r) \<le> stack_depth env k"
    for c' k t le0
  proof -
    let ?r0 = "log_event (Attempt (k + 1) t) r"
    let ?e = "RecursionError (''Preemptive recursion depth stop for '' @ task_full_id (task_id c') k)"
    have a: "attempt env c' k t ?r0 = (Inl ?e, ?r0)"
      using g by (simp add: attempt_gate)
    show ?thesis
      using retry_loop_recursion [OF le a, of le0]
      by (simp add: is_RecursionError_def log_event_def)
  qed
  have B: "fst (retry_loop env c' k t le0 r) = Inl (RecursionError m) \<and>
        fallback_to_sync (agent (snd (retry_loop env c' k t le0 r))) \<and>
        trace (snd (retry_loop env c' k t le0 r)) =
          trace r @ [Attempt (k + 1) t, Failed (RecursionError m)]"
    if le: "k \<le> max_retries c'"
      and h: "stack_depth env k < getrecursionlimit env - recursion_check_buffer (agent r)"
        "0 < t"
        "fst (state_get (monotonic env) (actual_circuit_breaker r) (readings r)) \<noteq> OPEN"
        "task_body c' k t = Throws (RecursionError m)"
    for c' k t le0 m
  proof -
    let ?r0 = "log_event (Attempt (k + 1) t) r"
    obtain r1 where a: "attempt env c' k t ?r0 = (Inl (RecursionError m), r1)"
      using attempt_throws [of env k ?r0 t c' "RecursionError m"] h
      by (cases "attempt env c' k t ?r0") simp
    have "trace (snd (attempt env c' k t ?r0)) = trace ?r0"
      by (rule attempt_trace)
    then have t: "trace r1 = trace r @ [Attempt (k + 1) t]"
      unfolding a by simp
    have l: "retry_loop env c' k t le0 r =
          (Inl (RecursionError m), (log_event (Failed (RecursionError m)) r1)
             \<lparr>agent := (agent (log_event (Failed (RecursionError m)) r1))\<lparr>fallback_to_sync := True\<rparr>\<rparr>)"
      using retry_loop_recursion [OF le a, of le0] by (simp add: is_RecursionError_def)
    show ?thesis
      unfolding l using t by simp
  qed
  define c0 where "c0 = \<lparr> task_id = tid, task_name = name, task_body = body, max_retries = retries,
                          initial_timeout = T, backoff_factor = b \<rparr>"
  have run: "execute_with_resilience env fb tid (Callable name body) retries T b r =
               retry_loop env c0 0 T None r"
    by (simp add: execute_with_resilience_def c0_def)
  have c0: "max_retries c0 = retries" "task_id c0 = tid" "task_body c0 = body"
    by (simp_all add: c0_def)
  have E1: "execute_with_resilience env fb tid (Callable name body) retries T b r =
        (Inl (RecursionError (''Preemptive recursion depth stop for '' @ task_full_id tid 0)),
         r\<lparr>trace := trace r @ [Attempt 1 T,
                Failed (RecursionError (''Preemptive recursion depth stop for ''
                  @ task_full_id tid 0))],
           agent := (agent r)\<lparr>fallback_to_sync := True\<rparr>\<rparr>)"
    if "0 \<le> retries"
       "getrecursionlimit env - recursion_check_buffer (agent r) \<le> stack_depth env 0"
    unfolding run using A [of 0 c0 T None] that c0 by simp
  have E2: "fst (execute_with_resilience env fb tid (Callable name body) retries T b r) =
          Inl (RecursionError m) \<and>
        fallback_to_sync (agent (snd (execute_with_resilience env fb tid (Callable name body)
          retries T b r))) \<and>
        trace (snd (execute_with_resilience env fb tid (Callable name body) retries T b r)) =
          trace r @ [Attempt 1 T, Failed (RecursionError m)]"
    if "0 \<le> retries"
       "stack_depth env 0 < getrecursionlimit env - recursion_check_buffer (agent r)"
       "0 < T"
       "fst (state_get (monotonic env) (actual_circuit_breaker r) (readings r)) \<noteq> OPEN"
       "body 0 T = Throws (RecursionError m)" for m
    unfolding run using B [of 0 c0 T m None] that c0 by simp
  have E3: "last tr = Failed e \<and>
           fst (execute_with_resilience env fb tid (Callable name body) retries T b r) = Inl e \<and>
           fallback_to_sync (agent (snd (execute_with_resilience env fb tid (Callable name body)
             retries T b r)))"
    if h: "trace (snd (execute_with_resilience env fb tid (Callable name body) retries T b r)) =
             trace r @ tr"
          "Failed e \<in> set tr" "is_RecursionError e" for tr e
  proof -
    obtain tr' where e: "trace (snd (retry_loop env c0 0 T None r)) = trace r @ tr'"
      "\<forall>e. Failed e \<in> set tr' \<and> is_RecursionError e \<longrightarrow>
            tr' \<noteq> [] \<and> last tr' = Failed e \<and> fst (retry_loop env c0 0 T None r) = Inl e \<and>
            fallback_to_sync (agent (snd (retry_loop env c0 0 T None r)))"
      using retry_loop_recursion_ends [of env c0 0 T None r] by blast
    have "tr' = tr"
      using h(1) e(1) unfolding run by simp
    then show ?thesis
      unfolding run using e(2) h(2,3) by blast
  qed
  show ?thesis
    using E1 E2 E3 A [of current_retry c current_timeout last_exception]
      B [of current_retry c current_timeout _ last_exception]
    by blast
qed

theorem recursion_gate_witness:
  "execute_with_resilience (example_env\<lparr>stack_depth := (\<lambda>k. 950)\<rparr>) get_fallback_result ''t1''
     (Callable ''op'' (\<lambda>k t. Returns PyNone)) 2 180 (3 / 2) example_run =
     (Inl (RecursionError (''Preemptive recursion depth stop for '' @ task_full_id ''t1'' 0)),
      example_run\<lparr>trace := trace example_run @ [Attempt 1 180,
         Failed (RecursionError (''Preemptive recursion depth stop for '' @ task_full_id ''t1'' 0))],
        agent := (agent example_run)\<lparr>fallback_to_sync := True\<rparr>\<rparr>)"
proof -
  let ?env = "example_env\<lparr>stack_depth := (\<lambda>k. 950)\<rparr>"
  have g: "(0::int) \<le> 2 \<and>
           getrecursionlimit ?env - recursion_check_buffer (agent example_run) \<le> stack_depth ?env 0"
    by (simp add: example_env_def example_run_def BaseAsyncAgent_init_def)
  show ?thesis
    using recursion_gate [of 2 ?env example_run get_fallback_result "''t1''" "''op''"
        "\<lambda>k t. Returns PyNone" 180 "3 / 2", THEN conjunct1] g
    by blast
qed

lemma execute_fst:
  "fst (execute clk name run cb n) =
     (if fst (state_get clk cb n) = OPEN
      then Throws (CircuitBreakerOpenError (''CircuitBreaker is OPEN for '' @ name @ ''. Call rejected.''))
      else run)"
  by (simp add: execute_def split: prod.splits awaited.splits)

lemma attempt_fst:
  "fst (attempt env c k t r) =
     (if getrecursionlimit env - recursion_check_buffer (agent r) \<le> stack_depth env k
      then Inl (RecursionError (''Preemptive recursion depth stop for '' @ task_full_id (task_id c) k))
      else if t \<le> 0 then Inl (TimeoutError [])
      else if fst (state_get (monotonic env) (actual_circuit_breaker r) (readings r)) = OPEN
      then Inl (CircuitBreakerOpenError
                 (''CircuitBreaker is OPEN for '' @ task_name c @ ''. Call rejected.''))
      else (case task_body c k t of
              Returns v \<Rightarrow> Inr v
            | Exceeds \<Rightarrow> Inl (TimeoutError [])
            | Throws e \<Rightarrow> Inl e))"
proof -
  obtain out cb n where ex: "execute (monotonic env) (task_name c) (task_body c k t)
      (actual_circuit_breaker r) (readings r) = (out, cb, n)"
    by (cases "execute (monotonic env) (task_name c) (task_body c k t)
                 (actual_circuit_breaker r) (readings r)")
  have out: "out = (if fst (state_get (monotonic env) (actual_circuit_breaker r) (readings r)) = OPEN
      then Throws (CircuitBreakerOpenError
             (''CircuitBreaker is OPEN for '' @ task_name c @ ''. Call rejected.''))
      else task_body c k t)"
    using execute_fst [of "monotonic env" "task_name c" "task_body c k t"
        "actual_circuit_breaker r" "readings r"] ex by simp
  show ?thesis
    using ex out by (cases "task_body c k t") (simp_all add: attempt_def)
qed


lemma attempt_fails:
  assumes "\<forall>k t. body k t = Exceeds \<or>
             (\<exists>e. body k t = Throws e \<and> is_Exception e \<and> \<not> is_RecursionError e)"
    and "task_body c = body"
    and "stack_depth env k < getrecursionlimit env - recursion_check_buffer (agent r)"
  shows "\<exists>e. fst (attempt env c k t r) = Inl e \<and> is_Exception e \<and> \<not> is_RecursionError e"
proof -
  have "body k t = Exceeds \<or>
        (\<exists>e. body k t = Throws e \<and> is_Exception e \<and> \<not> is_RecursionError e)"
    using assms(1) by blast
  then show ?thesis
  proof
    assume "body k t = Exceeds"
    then show ?thesis
      using assms(2,3) by (simp add: attempt_fst is_RecursionError_def)
  next
    assume "\<exists>e. body k t = Throws e \<and> is_Exception e \<and> \<not> is_RecursionError e"
    then obtain e where "body k t = Throws e" "is_Exception e" "\<not> is_RecursionError e"
      by blast
    then show ?thesis
      using assms(2,3) by (simp add: attempt_fst is_RecursionError_def)
  qed
qed

lemma failing_step:
  assumes "\<forall>k t. body k t = Exceeds \<or>
             (\<exists>e. body k t = Throws e \<and> is_Exception e \<and> \<not> is_RecursionError e)"
    and "task_body c = body"
    and "stack_depth env k < getrecursionlimit env - recursion_check_buffer (agent r)"
  shows "\<exists>e r1. attempt env c k t (log_event (Attempt (k + 1) t) r) = (Inl e, r1) \<and>
           \<not> is_RecursionError e \<and> trace r1 = trace r @ [Attempt (k + 1) t] \<and>
           recursion_check_buffer (agent r1) = recursion_check_buffer (agent r) \<and> is_Exception e"
proof -
  let ?r0 = "log_event (Attempt (k + 1) t) r"
  have "stack_depth env k < getrecursionlimit env - recursion_check_buffer (agent ?r0)"
    using assms(3) by simp
  then obtain e where e: "fst (attempt env c k t ?r0) = Inl e" "\<not> is_RecursionError e"
      "is_Exception e"
    using attempt_fails [OF assms(1,2), of env k ?r0 t] by blast
  obtain r1 where a: "attempt env c k t ?r0 = (Inl e, r1)"
    using e(1) by (cases "attempt env c k t ?r0") simp
  have "trace r1 = trace r @ [Attempt (k + 1) t]"
    using attempt_trace [of env c k t ?r0] a by simp
  moreover have "recursion_check_buffer (agent r1) = recursion_check_buffer (agent r)"
    using attempt_buffer [of env c k t ?r0] a by simp
  ultimately show ?thesis
    using a e(2,3) by blast
qed

text \<open>
  An operation that raises an exception \<^verbatim>\<open>except Exception\<close> does not catch is not
  retried: the exception leaves the call from the first attempt, with no failure logged
  and the sync-mode flag as it was.
\<close>

lemma non_exception_not_retried:
  assumes "0 \<le> retries"
    and "stack_depth env 0 < getrecursionlimit env - recursion_check_buffer (agent r)"
    and "0 < T"
    and "fst (state_get (monotonic env) (actual_circuit_breaker r) (readings r)) \<noteq> OPEN"
    and "body 0 T = Throws e" and "\<not> is_Exception e"
  shows "fst (execute_with_resilience env fb tid (Callable name body) retries T b r) = Inl e"
    and "trace (snd (execute_with_resilience env fb tid (Callable name body) retries T b r)) =
           trace r @ [Attempt 1 T]"
    and "fallback_to_sync (agent (snd (execute_with_resilience env fb tid (Callable name body)
           retries T b r))) = fallback_to_sync (agent r)"
proof -
  define c where "c = \<lparr> task_id = tid, task_name = name, task_body = body, max_retries = retries,
                         initial_timeout = T, backoff_factor = b \<rparr>"
  let ?r0 = "log_event (Attempt (0 + 1) T) r"
  have le: "0 \<le> max_retries c" and cb: "task_body c 0 T = Throws e"
    using assms(1,5) by (simp_all add: c_def)
  obtain r1 where a: "attempt env c 0 T ?r0 = (Inl e, r1)"
    using attempt_throws [of env 0 ?r0 T c e] assms(2,3,4) cb
    by (cases "attempt env c 0 T ?r0") simp
  have "trace (snd (attempt env c 0 T ?r0)) = trace ?r0"
    by (rule attempt_trace)
  then have t: "trace r1 = trace r @ [Attempt 1 T]"
    unfolding a by simp
  have "fallback_to_sync (agent (snd (attempt env c 0 T ?r0))) = fallback_to_sync (agent ?r0)"
    by (rule attempt_flag)
  then have f: "fallback_to_sync (agent r1) = fallback_to_sync (agent r)"
    unfolding a by simp
  have run: "execute_with_resilience env fb tid (Callable name body) retries T b r = (Inl e, r1)"
    using retry_loop_propagate [OF le a assms(6), of None]
    by (simp add: execute_with_resilience_def c_def)
  show "fst (execute_with_resilience env fb tid (Callable name body) retries T b r) = Inl e"
    and "trace (snd (execute_with_resilience env fb tid (Callable name body) retries T b r)) =
           trace r @ [Attempt 1 T]"
    and "fallback_to_sync (agent (snd (execute_with_resilience env fb tid (Callable name body)
           retries T b r))) = fallback_to_sync (agent r)"
    unfolding run using t f by simp_all
qed


text \<open>
  C6, as amended. For an operation whose every call times out or raises an exception that
  is an \<^verbatim>\<open>Exception\<close> other than a recursion error (an exception the retry loop catches
  and retries), with the call-stack depth below the gate at every check,
  \<^verbatim>\<open>execute_with_resilience\<close> with \<open>max_retries = 2\<close> makes exactly three attempts, sleeps
  twice between them, and then raises the exception of the third attempt: the last one it
  observed. When the loop body never runs (\<open>max_retries < 0\<close>) no exception was recorded
  and the call raises the generic one.
\<close>

theorem exhaustion_after_three_attempts:
  assumes "\<forall>k t. body k t = Exceeds \<or>
             (\<exists>e. body k t = Throws e \<and> is_Exception e \<and> \<not> is_RecursionError e)"
    and "\<forall>k. stack_depth env k < getrecursionlimit env - recursion_check_buffer (agent r)"
  shows "(\<exists>e1 e2 e3.
            fst (execute_with_resilience env fb tid (Callable name body) 2 T b r) = Inl e3 \<and>
            trace (snd (execute_with_resilience env fb tid (Callable name body) 2 T b r)) =
              trace r @ [Attempt 1 T, Failed e1, Sleep (b ^ 0),
                         Attempt 2 (T * b), Failed e2, Sleep (b ^ 1),
                         Attempt 3 (T * b * b), Failed e3]) \<and>
         (\<forall>retries. retries < 0 \<longrightarrow>
            execute_with_resilience env fb tid (Callable name body) retries T b r =
              (Inl (Exception (''Task '' @ [CHR 0x27] @ tid @ [CHR 0x27]
                      @ '' failed after max retries without a specific exception.'')), r))"
proof -
  define c where "c = \<lparr> task_id = tid, task_name = name, task_body = body, max_retries = 2,
                         initial_timeout = T, backoff_factor = b \<rparr>"
  have cb: "task_body c = body" and cm: "max_retries c = 2" and cf: "backoff_factor c = b"
    by (simp_all add: c_def)
  have d0: "stack_depth env 0 < getrecursionlimit env - recursion_check_buffer (agent r)"
    using assms(2) by blast
  obtain e1 r1 where s1: "attempt env c 0 T (log_event (Attempt (0 + 1) T) r) = (Inl e1, r1)"
      "\<not> is_RecursionError e1" "trace r1 = trace r @ [Attempt (0 + 1) T]"
      "recursion_check_buffer (agent r1) = recursion_check_buffer (agent r)" "is_Exception e1"
    using failing_step [OF assms(1) cb d0, of T] by blast
  define r2 where "r2 = log_event (Sleep (b ^ nat 0)) (count_failure e1 (log_event (Failed e1) r1))"
  have le1: "(0::int) + 1 \<le> max_retries c"
    using cm by simp
  have l1: "retry_loop env c 0 T None r = retry_loop env c 1 (T * b) (Some e1) r2"
    using retry_loop_retry [OF le1 s1(1,2,5), of None] cf by (simp add: r2_def)
  have t2: "trace r2 = trace r @ [Attempt 1 T, Failed e1, Sleep (b ^ 0)]"
    using s1(3) by (simp add: r2_def)
  have b2: "recursion_check_buffer (agent r2) = recursion_check_buffer (agent r)"
    using s1(4) by (simp add: r2_def)
  have d1: "stack_depth env 1 < getrecursionlimit env - recursion_check_buffer (agent r2)"
    using assms(2) b2 by simp
  obtain e2 r3 where s2: "attempt env c 1 (T * b) (log_event (Attempt (1 + 1) (T * b)) r2) = (Inl e2, r3)"
      "\<not> is_RecursionError e2" "trace r3 = trace r2 @ [Attempt (1 + 1) (T * b)]"
      "recursion_check_buffer (agent r3) = recursion_check_buffer (agent r2)" "is_Exception e2"
    using failing_step [OF assms(1) cb d1, of "T * b"] by blast
  define r4 where "r4 = log_event (Sleep (b ^ nat 1)) (count_failure e2 (log_event (Failed e2) r3))"
  have le2: "(1::int) + 1 \<le> max_retries c"
    using cm by simp
  have l2: "retry_loop env c 1 (T * b) (Some e1) r2 = retry_loop env c 2 (T * b * b) (Some e2) r4"
    using retry_loop_retry [OF le2 s2(1,2,5), of "Some e1"] cf by (simp add: r4_def)
  have t4: "trace r4 = trace r2 @ [Attempt 2 (T * b), Failed e2, Sleep (b ^ 1)]"
    using s2(3) by (simp add: r4_def)
  have b4: "recursion_check_buffer (agent r4) = recursion_check_buffer (agent r)"
    using s2(4) b2 by (simp add: r4_def)
  have d2: "stack_depth env 2 < getrecursionlimit env - recursion_check_buffer (agent r4)"
    using assms(2) b4 by simp
  obtain e3 r5 where s3: "attempt env c 2 (T * b * b) (log_event (Attempt (2 + 1) (T * b * b)) r4) = (Inl e3, r5)"
      "\<not> is_RecursionError e3" "trace r5 = trace r4 @ [Attempt (2 + 1) (T * b * b)]"
      "is_Exception e3"
    using failing_step [OF assms(1) cb d2, of "T * b * b"] by blast
  have eq2: "(2::int) = max_retries c"
    using cm by simp
  have l3: "retry_loop env c 2 (T * b * b) (Some e2) r4 =
              (Inl e3, count_failure e3 (log_event (Failed e3) r5))"
    using retry_loop_last [OF eq2 s3(1,2,4), of "Some e2"] .
  have "execute_with_resilience env fb tid (Callable name body) 2 T b r = retry_loop env c 0 T None r"
    by (simp add: execute_with_resilience_def c_def)
  also have "\<dots> = retry_loop env c 1 (T * b) (Some e1) r2"
    by (rule l1)
  also have "\<dots> = retry_loop env c 2 (T * b * b) (Some e2) r4"
    by (rule l2)
  also have "\<dots> = (Inl e3, count_failure e3 (log_event (Failed e3) r5))"
    by (rule l3)
  finally have whole: "execute_with_resilience env fb tid (Callable name body) 2 T b r =
                 (Inl e3, count_failure e3 (log_event (Failed e3) r5))" .
  have tr: "trace (count_failure e3 (log_event (Failed e3) r5)) =
              trace r @ [Attempt 1 T, Failed e1, Sleep (b ^ 0),
                         Attempt 2 (T * b), Failed e2, Sleep (b ^ 1),
                         Attempt 3 (T * b * b), Failed e3]"
    using s3(3) t4 t2 by simp
  have first: "\<exists>e1 e2 e3.
            fst (execute_with_resilience env fb tid (Callable name body) 2 T b r) = Inl e3 \<and>
            trace (snd (execute_with_resilience env fb tid (Callable name body) 2 T b r)) =
              trace r @ [Attempt 1 T, Failed e1, Sleep (b ^ 0),
                         Attempt 2 (T * b), Failed e2, Sleep (b ^ 1),
                         Attempt 3 (T * b * b), Failed e3]"
    unfolding whole using tr by (intro exI [of _ e1] exI [of _ e2] exI [of _ e3]) simp
  have second: "execute_with_resilience env fb tid (Callable name body) retries T b r =
              (Inl (Exception (''Task '' @ [CHR 0x27] @ tid @ [CHR 0x27]
                      @ '' failed after max retries without a specific exception.'')), r)"
    if "retries < 0" for retries
    using that by (simp add: execute_with_resilience_def retry_loop_exit)
  show ?thesis
    using first second by blast
qed


theorem exhaustion_after_three_attempts_witness:
  "\<exists>e1 e2 e3.
     fst (execute_with_resilience example_env get_fallback_result ''t1''
            (Callable ''op'' (\<lambda>k t. Throws (Exception ''boom''))) 2 180 (3 / 2) example_run) = Inl e3 \<and>
     trace (snd (execute_with_resilience example_env get_fallback_result ''t1''
            (Callable ''op'' (\<lambda>k t. Throws (Exception ''boom''))) 2 180 (3 / 2) example_run)) =
       trace example_run @ [Attempt 1 180, Failed e1, Sleep ((3 / 2) ^ 0),
                  Attempt 2 (180 * (3 / 2)), Failed e2, Sleep ((3 / 2) ^ 1),
                  Attempt 3 (180 * (3 / 2) * (3 / 2)), Failed e3]"
proof -
  have a: "\<forall>k t. (\<lambda>(k::int) (t::real). Throws (Exception ''boom'') :: PyVal awaited) k t = Exceeds \<or>
             (\<exists>e. (\<lambda>(k::int) (t::real). Throws (Exception ''boom'') :: PyVal awaited) k t = Throws e \<and>
                  is_Exception e \<and> \<not> is_RecursionError e)"
    by (simp add: is_RecursionError_def)
  have b: "\<forall>k. stack_depth example_env k <
             getrecursionlimit example_env - recursion_check_buffer (agent example_run)"
    by (simp add: example_env_def example_run_def BaseAsyncAgent_init_def)
  show ?thesis
    using exhaustion_after_three_attempts [OF a b, of get_fallback_result "''t1''" "''op''" 180 "3 / 2",
        THEN conjunct1] .
qed

text \<open>
  The claim as written fails for an operation that raises a recursion error on every
  attempt: the call raises after one attempt, not three.
\<close>

theorem exhaustion_after_three_attempts_counterexample:
  "fst (execute_with_resilience example_env get_fallback_result ''t1''
          (Callable ''op'' (\<lambda>k t. Throws (RecursionError ''deep''))) 2 180 (3 / 2) example_run) =
     Inl (RecursionError ''deep'') \<and>
   trace (snd (execute_with_resilience example_env get_fallback_result ''t1''
          (Callable ''op'' (\<lambda>k t. Throws (RecursionError ''deep''))) 2 180 (3 / 2) example_run)) =
     [Attempt 1 180, Failed (RecursionError ''deep'')]"
proof -
  let ?c = "\<lparr> task_id = ''t1'', task_name = ''op'',
              task_body = (\<lambda>k t. Throws (RecursionError ''deep'')), max_retries = 2,
              initial_timeout = 180, backoff_factor = 3 / 2 \<rparr>"
  let ?r0 = "log_event (Attempt (0 + 1) 180) example_run"
  have f: "fst (attempt example_env ?c 0 180 ?r0) = Inl (RecursionError ''deep'')"
    by (simp add: attempt_fst example_env_def example_run_def BaseAsyncAgent_init_def
        CircuitBreaker_init_def state_get_def actual_circuit_breaker_def)
  obtain r1 where a: "attempt example_env ?c 0 180 ?r0 = (Inl (RecursionError ''deep''), r1)"
    using f by (cases "attempt example_env ?c 0 180 ?r0") simp
  have "trace (snd (attempt example_env ?c 0 180 ?r0)) = trace ?r0"
    by (rule attempt_trace)
  then have "trace r1 = trace ?r0"
    unfolding a by simp
  then have t: "trace r1 = [Attempt 1 180]"
    by (simp add: example_run_def)
  have le: "(0::int) \<le> max_retries ?c"
    by simp
  have "retry_loop example_env ?c 0 180 None example_run =
          (Inl (RecursionError ''deep''), (log_event (Failed (RecursionError ''deep'')) r1)
             \<lparr>agent := (agent (log_event (Failed (RecursionError ''deep'')) r1))
                \<lparr>fallback_to_sync := True\<rparr>\<rparr>)"
    using retry_loop_recursion [OF le a, of None] by (simp add: is_RecursionError_def)
  then show ?thesis
    using t by (simp add: execute_with_resilience_def)
qed


lemma spec_backoff_schedule_step:
  "j < n \<Longrightarrow> spec_backoff_schedule T b j n =
     Attempt (int j + 1) (T * b ^ j) # (if Suc j < n then [Sleep (b ^ j)] else [])
       @ spec_backoff_schedule T b (Suc j) n"
  by (simp add: spec_backoff_schedule_def upt_conv_Cons)

lemma spec_backoff_schedule_empty: "spec_backoff_schedule T b n n = []"
  by (simp add: spec_backoff_schedule_def)

lemma spec_backoff_schedule_single:
  "spec_backoff_schedule T b j (Suc j) = [Attempt (int j + 1) (T * b ^ j)]"
  by (simp add: spec_backoff_schedule_def)

lemma timing_simps [simp]:
  "timing [] = []"
  "timing (Attempt k t # tr) = Attempt k t # timing tr"
  "timing (Failed e # tr) = timing tr"
  "timing (Sleep d # tr) = Sleep d # timing tr"
  by (simp_all add: timing_def is_Failed_def)

lemma retry_loop_schedule:
  "\<exists>tr n. trace (snd (retry_loop env c (int j) (T * backoff_factor c ^ j) le0 r)) = trace r @ tr \<and>
          timing tr = spec_backoff_schedule T (backoff_factor c) j n \<and> j \<le> n \<and>
          int n \<le> max (int j) (max_retries c + 1) \<and> (int j \<le> max_retries c \<longrightarrow> j < n)"
proof (induction "nat (max_retries c + 1 - int j)" arbitrary: j le0 r)
  case 0
  then have gt: "\<not> int j \<le> max_retries c"
    by simp
  have "trace (snd (retry_loop env c (int j) (T * backoff_factor c ^ j) le0 r)) = trace r"
    by (simp add: retry_loop_exit [OF gt] split: option.splits)
  then show ?case
    using gt by (intro exI [of _ "[]"] exI [of _ j]) (simp add: spec_backoff_schedule_empty)
next
  case (Suc d)
  then have le: "int j \<le> max_retries c"
    by linarith
  let ?b = "backoff_factor c"
  let ?t = "T * ?b ^ j"
  let ?r0 = "log_event (Attempt (int j + 1) ?t) r"
  obtain res r1 where a: "attempt env c (int j) ?t ?r0 = (res, r1)"
    by (cases "attempt env c (int j) ?t ?r0")
  have "trace (snd (attempt env c (int j) ?t ?r0)) = trace ?r0"
    by (rule attempt_trace)
  then have t1: "trace r1 = trace r @ [Attempt (int j + 1) ?t]"
    unfolding a by simp
  have bound: "int (Suc j) \<le> max (int j) (max_retries c + 1)"
    using le by simp
  show ?case
  proof (cases res)
    case (Inr v)
    have "retry_loop env c (int j) ?t le0 r = (Inr v, r1)"
      using retry_loop_success [OF le] a Inr by simp
    then show ?thesis
      using t1 bound
      by (intro exI [of _ "[Attempt (int j + 1) ?t]"] exI [of _ "Suc j"])
         (simp add: spec_backoff_schedule_single)
  next
    case (Inl e)
    then have a': "attempt env c (int j) ?t ?r0 = (Inl e, r1)"
      using a by simp
    show ?thesis
    proof (cases "is_RecursionError e")
      case True
      have "retry_loop env c (int j) ?t le0 r =
              (Inl e, (log_event (Failed e) r1)
                 \<lparr>agent := (agent (log_event (Failed e) r1))\<lparr>fallback_to_sync := True\<rparr>\<rparr>)"
        using retry_loop_recursion [OF le a' True] .
      then show ?thesis
        using t1 bound
        by (intro exI [of _ "[Attempt (int j + 1) ?t, Failed e]"] exI [of _ "Suc j"])
           (simp add: spec_backoff_schedule_single)
    next
      case False
      show ?thesis
      proof (cases "is_Exception e")
        case nex: False
        have "retry_loop env c (int j) ?t le0 r = (Inl e, r1)"
          using retry_loop_propagate [OF le a' nex] .
        then show ?thesis
          using t1 bound
          by (intro exI [of _ "[Attempt (int j + 1) ?t]"] exI [of _ "Suc j"])
             (simp add: spec_backoff_schedule_single)
      next
        case ex: True
      show ?thesis
      proof (cases "int j + 1 \<le> max_retries c")
        case True
        define r2 where "r2 = log_event (Sleep (?b ^ nat (int j)))
                                (count_failure e (log_event (Failed e) r1))"
        have l: "retry_loop env c (int j) ?t le0 r =
                   retry_loop env c (int (Suc j)) (T * ?b ^ Suc j) (Some e) r2"
        proof -
          have e1: "int j + 1 = int (Suc j)"
            by simp
          have e2: "?t * ?b = T * ?b ^ Suc j"
            by simp
          have "retry_loop env c (int j) ?t le0 r =
                  retry_loop env c (int j + 1) (?t * ?b) (Some e)
                    (log_event (Sleep (?b ^ nat (int j))) (count_failure e (log_event (Failed e) r1)))"
            by (rule retry_loop_retry [OF True a' False ex])
          then show ?thesis
            by (simp only: r2_def e1 e2)
        qed
        have t2: "trace r2 = trace r @ [Attempt (int j + 1) ?t, Failed e, Sleep (?b ^ j)]"
          using t1 by (simp add: r2_def)
        have m: "d = nat (max_retries c + 1 - int (Suc j))"
          using Suc.hyps(2) by linarith
        obtain tr' n' where ih:
          "trace (snd (retry_loop env c (int (Suc j)) (T * ?b ^ Suc j) (Some e) r2)) = trace r2 @ tr'"
          "timing tr' = spec_backoff_schedule T ?b (Suc j) n'" "Suc j \<le> n'"
          "int n' \<le> max (int (Suc j)) (max_retries c + 1)"
          "int (Suc j) \<le> max_retries c \<longrightarrow> Suc j < n'"
          using Suc.hyps(1) [OF m, of "Some e" r2] by blast
        have lt: "Suc j < n'"
          using ih(5) True by simp
        have sched: "spec_backoff_schedule T ?b j n' =
                       Attempt (int j + 1) ?t # Sleep (?b ^ j) # spec_backoff_schedule T ?b (Suc j) n'"
          using spec_backoff_schedule_step [of j n' T ?b] lt by simp
        have "trace (snd (retry_loop env c (int j) ?t le0 r)) =
                trace r @ ([Attempt (int j + 1) ?t, Failed e, Sleep (?b ^ j)] @ tr')"
          unfolding l ih(1) t2 by simp
        moreover have "timing ([Attempt (int j + 1) ?t, Failed e, Sleep (?b ^ j)] @ tr') =
                         spec_backoff_schedule T ?b j n'"
          using ih(2) sched by (simp add: timing_def is_Failed_def)
        moreover have "j \<le> n'" "int n' \<le> max (int j) (max_retries c + 1)" "j < n'"
          using lt ih(4) True by simp_all
        ultimately show ?thesis
          by blast
      next
        case F2: False
        have eq: "int j = max_retries c"
          using le F2 by linarith
        have "retry_loop env c (int j) ?t le0 r = (Inl e, count_failure e (log_event (Failed e) r1))"
          using retry_loop_last [OF eq a' False ex] .
        then show ?thesis
          using t1 bound
          by (intro exI [of _ "[Attempt (int j + 1) ?t, Failed e]"] exI [of _ "Suc j"])
             (simp add: spec_backoff_schedule_single)
      qed
      qed
    qed
  qed
qed


lemma attempt_exceeds:
  assumes "stack_depth env k < getrecursionlimit env - recursion_check_buffer (agent r)"
    and "0 < t"
    and "priv_state (actual_circuit_breaker r) = CLOSED"
    and "task_body c k t = Exceeds"
  shows "attempt env c k t r = (Inl (TimeoutError []), r)"
  using assms
  by (simp add: attempt_def execute_def state_get_def set_actual_circuit_breaker_def
      actual_circuit_breaker_def split: option.splits)

lemma actual_count_failure [simp]:
  "actual_circuit_breaker (count_failure e r) = actual_circuit_breaker r"
  by (simp add: actual_circuit_breaker_def split: option.splits)

text \<open>
  C7. The attempts and sleeps of a call follow the specification's schedule from the first
  attempt: attempt \<open>k\<close> runs under \<open>initial_timeout * backoff_factor ^ (k - 1)\<close>, a sleep of
  \<open>backoff_factor ^ (k - 1)\<close> seconds stands between attempt \<open>k\<close> and attempt \<open>k + 1\<close>, and the
  last attempt is followed by no sleep; there are at most \<open>max_retries + 1\<close> attempts. In the
  loop itself: after a failure that the loop retries (an \<^verbatim>\<open>Exception\<close> other than a
  recursion error) of the attempt with
  \<open>current_retry + 1 \<le> max_retries\<close> the loop sleeps \<open>backoff_factor ^ current_retry\<close> and goes
  on with the timeout multiplied by \<open>backoff_factor\<close>; after a failure of the attempt with
  \<open>current_retry = max_retries\<close> it raises with no sleep and no change of the timeout.
\<close>

theorem backoff_schedule:
  "(\<exists>tr n. trace (snd (execute_with_resilience env fb tid (Callable name body) retries T b r)) =
              trace r @ tr \<and>
            timing tr = spec_backoff_schedule T b 0 n \<and> int n \<le> max 0 (retries + 1)) \<and>
   (current_retry + 1 \<le> max_retries c \<and>
    attempt env c current_retry current_timeout
      (log_event (Attempt (current_retry + 1) current_timeout) r0) = (Inl e, r1) \<and>
    is_Exception e \<and> \<not> is_RecursionError e \<longrightarrow>
      retry_loop env c current_retry current_timeout le0 r0 =
        retry_loop env c (current_retry + 1) (current_timeout * backoff_factor c) (Some e)
          (log_event (Sleep (backoff_factor c ^ nat current_retry))
             (count_failure e (log_event (Failed e) r1)))) \<and>
   (current_retry = max_retries c \<and>
    attempt env c current_retry current_timeout
      (log_event (Attempt (current_retry + 1) current_timeout) r0) = (Inl e, r1) \<and>
    is_Exception e \<and> \<not> is_RecursionError e \<longrightarrow>
      retry_loop env c current_retry current_timeout le0 r0 =
        (Inl e, count_failure e (log_event (Failed e) r1)))"
proof -
  define c0 where "c0 = \<lparr> task_id = tid, task_name = name, task_body = body, max_retries = retries,
                          initial_timeout = T, backoff_factor = b \<rparr>"
  have run: "execute_with_resilience env fb tid (Callable name body) retries T b r =
               retry_loop env c0 (int 0) (T * backoff_factor c0 ^ 0) None r"
    by (simp add: execute_with_resilience_def c0_def)
  obtain tr n where s:
    "trace (snd (retry_loop env c0 (int 0) (T * backoff_factor c0 ^ 0) None r)) = trace r @ tr"
    "timing tr = spec_backoff_schedule T (backoff_factor c0) 0 n"
    "int n \<le> max (int 0) (max_retries c0 + 1)"
    using retry_loop_schedule [of env c0 0 T None r] by blast
  have first: "\<exists>tr n. trace (snd (execute_with_resilience env fb tid (Callable name body) retries T b r)) =
              trace r @ tr \<and>
            timing tr = spec_backoff_schedule T b 0 n \<and> int n \<le> max 0 (retries + 1)"
    unfolding run using s by (intro exI [of _ tr] exI [of _ n]) (simp add: c0_def)
  show ?thesis
    using first retry_loop_retry [of current_retry c env current_timeout r0 e r1 le0]
      retry_loop_last [of current_retry c env current_timeout r0 e r1 le0]
    by blast
qed


theorem backoff_schedule_witness:
  "fst (execute_with_resilience example_env get_fallback_result ''t1''
          (Callable ''op'' twice_then_ok) 2 180 (3 / 2) example_run) = Inr (PyInt 7) \<and>
   trace (snd (execute_with_resilience example_env get_fallback_result ''t1''
          (Callable ''op'' twice_then_ok) 2 180 (3 / 2) example_run)) =
     [Attempt 1 180, Failed (TimeoutError []), Sleep 1,
      Attempt 2 270, Failed (TimeoutError []), Sleep (3 / 2),
      Attempt 3 405]"
proof -
  let ?env = example_env
  let ?c = "\<lparr> task_id = ''t1'', task_name = ''op'', task_body = twice_then_ok, max_retries = 2,
              initial_timeout = 180, backoff_factor = 3 / 2 \<rparr>"
  let ?e = "TimeoutError []"
  let ?r0 = "log_event (Attempt (0 + 1) 180) example_run"
  let ?r2 = "log_event (Sleep (backoff_factor ?c ^ nat 0)) (count_failure ?e (log_event (Failed ?e) ?r0))"
  let ?r3 = "log_event (Attempt (1 + 1) (180 * backoff_factor ?c)) ?r2"
  let ?r4 = "log_event (Sleep (backoff_factor ?c ^ nat 1)) (count_failure ?e (log_event (Failed ?e) ?r3))"
  let ?r5 = "log_event (Attempt (2 + 1) (180 * backoff_factor ?c * backoff_factor ?c)) ?r4"
  have depth: "stack_depth ?env k < getrecursionlimit ?env - 50" for k
    by (simp add: example_env_def)
  have closed0: "priv_state (actual_circuit_breaker example_run) = CLOSED"
    and buf0: "recursion_check_buffer (agent example_run) = 50"
    by (simp_all add: example_run_def actual_circuit_breaker_def BaseAsyncAgent_init_def
        CircuitBreaker_init_def)
  have a1: "attempt ?env ?c 0 180 ?r0 = (Inl ?e, ?r0)"
    by (rule attempt_exceeds) (simp_all add: depth buf0 closed0 twice_then_ok_def)
  have nr: "\<not> is_RecursionError ?e" "is_Exception ?e"
    by (simp_all add: is_RecursionError_def)
  have l1: "retry_loop ?env ?c 0 180 None example_run =
              retry_loop ?env ?c (0 + 1) (180 * backoff_factor ?c) (Some ?e) ?r2"
    using backoff_schedule [where c = ?c and current_retry = 0 and env = ?env
        and current_timeout = 180 and ?r0.0 = example_run and e = ?e and ?r1.0 = ?r0 and ?le0.0 = None,
        THEN conjunct2, THEN conjunct1] a1 nr
    by simp
  have a2: "attempt ?env ?c 1 (180 * backoff_factor ?c) ?r3 = (Inl ?e, ?r3)"
    by (rule attempt_exceeds) (simp_all add: depth buf0 closed0 twice_then_ok_def)
  have l2: "retry_loop ?env ?c 1 (180 * backoff_factor ?c) (Some ?e) ?r2 =
              retry_loop ?env ?c (1 + 1) (180 * backoff_factor ?c * backoff_factor ?c) (Some ?e) ?r4"
    using retry_loop_retry [of 1 ?c ?env "180 * backoff_factor ?c" ?r2 ?e ?r3 "Some ?e"] a2 nr
    by simp
  have f3: "fst (attempt ?env ?c 2 (180 * backoff_factor ?c * backoff_factor ?c) ?r5) = Inr (PyInt 7)"
    using closed0 by (simp add: attempt_fst buf0 state_get_def twice_then_ok_def example_env_def)
  obtain r6 where a3: "attempt ?env ?c 2 (180 * backoff_factor ?c * backoff_factor ?c) ?r5 =
      (Inr (PyInt 7), r6)"
    using f3 by (cases "attempt ?env ?c 2 (180 * backoff_factor ?c * backoff_factor ?c) ?r5") simp
  have "trace (snd (attempt ?env ?c 2 (180 * backoff_factor ?c * backoff_factor ?c) ?r5)) = trace ?r5"
    by (rule attempt_trace)
  then have t6: "trace r6 = trace ?r5"
    unfolding a3 by simp
  have l3: "retry_loop ?env ?c 2 (180 * backoff_factor ?c * backoff_factor ?c) (Some ?e) ?r4 =
              (Inr (PyInt 7), r6)"
    using retry_loop_success [of 2 ?c ?env "180 * backoff_factor ?c * backoff_factor ?c" ?r4 "PyInt 7" r6
        "Some ?e"] a3 by simp
  have "execute_with_resilience example_env get_fallback_result ''t1''
          (Callable ''op'' twice_then_ok) 2 180 (3 / 2) example_run =
        retry_loop ?env ?c 0 180 None example_run"
    by (simp add: execute_with_resilience_def)
  also have "\<dots> = retry_loop ?env ?c 1 (180 * backoff_factor ?c) (Some ?e) ?r2"
    using l1 by simp
  also have "\<dots> = retry_loop ?env ?c 2 (180 * backoff_factor ?c * backoff_factor ?c) (Some ?e) ?r4"
    using l2 by simp
  also have "\<dots> = (Inr (PyInt 7), r6)"
    by (rule l3)
  finally have whole: "execute_with_resilience example_env get_fallback_result ''t1''
          (Callable ''op'' twice_then_ok) 2 180 (3 / 2) example_run = (Inr (PyInt 7), r6)" .
  have "trace ?r5 = [Attempt 1 180, Failed (TimeoutError []), Sleep 1,
      Attempt 2 270, Failed (TimeoutError []), Sleep (3 / 2), Attempt 3 405]"
    by (simp add: example_run_def)
  then show ?thesis
    unfolding whole using t6 by simp
qed


end
